theory Spec2Isabelle
  imports Complex_Main
begin

section \<open>JavaScript values, snapshots and options\<close>

text \<open>
  A metric value is a number, \<open>null\<close>, or missing (\<open>undefined\<close>). A number is a finite
  IEEE 754 double, carried as the rational it denotes; the sums and differences of the
  source are rounded to the nearest double (section "IEEE doubles"). \<open>NaN\<close> and the
  infinities are outside the model.
\<close>

datatype jsval = Undefined | Null | Num rat

text \<open>The loose comparison \<open>v == null\<close>: true of \<open>null\<close> and \<open>undefined\<close> only.\<close>

fun is_nullish :: "jsval \<Rightarrow> bool" where
  "is_nullish Undefined = True"
| "is_nullish Null = True"
| "is_nullish (Num x) = False"

type_synonym metrics_obj = "string \<rightharpoonup> jsval"

text \<open>Property access \<open>obj[key]\<close>: a key that is not there reads as \<open>undefined\<close>.\<close>

definition get_prop :: "metrics_obj \<Rightarrow> string \<Rightarrow> jsval" where
  "get_prop obj key = (case obj key of None \<Rightarrow> Undefined | Some v \<Rightarrow> v)"

text \<open>
  A \<open>Date\<close> is its time value: milliseconds since the epoch, in UTC. Invalid dates and
  the limits of the time range are outside the model.
\<close>

type_synonym jsdate = int

record snapshot =
  date :: jsdate
  metrics :: metrics_obj

text \<open>\<open>Number.isInteger\<close> on a finite number.\<close>

definition isInteger :: "rat \<Rightarrow> bool" where
  "isInteger x = (of_int \<lfloor>x\<rfloor> = x)"

section \<open>IEEE doubles\<close>

text \<open>
  \<open>bits k\<close> is the length of the binary numeral of a positive integer, \<open>pow2 e\<close> the
  power of two with an integer exponent, and \<open>exponent x\<close> the integer \<open>e\<close> with
  \<open>2^e \<le> x < 2^(e+1)\<close> for a positive rational \<open>x\<close>: the difference of the bit lengths of
  numerator and denominator, or one less.
\<close>

function bits :: "int \<Rightarrow> nat" where
  "bits k = (if k \<le> 0 then 0 else Suc (bits (k div 2)))"
  by pat_completeness auto

termination
  by (relation "measure nat") auto

declare bits.simps [simp del]

definition pow2 :: "int \<Rightarrow> rat" where
  "pow2 e = (if 0 \<le> e then 2 ^ nat e else 1 / 2 ^ nat (- e))"

definition exponent :: "rat \<Rightarrow> int" where
  "exponent x =
     (let (a, b) = quotient_of x;
          d = int (bits a) - int (bits b)
      in if pow2 d \<le> x then d else d - 1)"

text \<open>The nearest integer, the even one of the two on a tie.\<close>

definition roundTiesToEven :: "rat \<Rightarrow> int" where
  "roundTiesToEven m =
     (let f = \<lfloor>m\<rfloor>; r = m - of_int f
      in if r < 1 / 2 then f else if 1 / 2 < r then f + 1 else if even f then f else f + 1)"

text \<open>
  \<open>fl x\<close> is the double nearest to \<open>x\<close>, ties to even: \<open>x\<close> is scaled by the power of two
  that brings its magnitude into \<open>[2^52, 2^53)\<close>, rounded to an integer (the 53-bit
  significand), and scaled back. The exponent is not bounded in \<open>fl\<close>: a result of
  magnitude \<open>2^1024\<close> or more is \<open>Infinity\<close> in JavaScript and outside the model; a sum or
  difference of two doubles that falls below \<open>2^-1022\<close> is a multiple of \<open>2^-1074\<close> with
  fewer than 53 significant bits, which IEEE arithmetic and \<open>fl\<close> both return exactly.
  \<open>a + b\<close> and \<open>a - b\<close> on JavaScript numbers are \<open>fadd\<close> and \<open>fsub\<close>.
\<close>

definition fl :: "rat \<Rightarrow> rat" where
  "fl x =
     (if x = 0 then 0
      else let q = pow2 (exponent \<bar>x\<bar> - 52) in of_int (roundTiesToEven (x / q)) * q)"

definition fadd :: "rat \<Rightarrow> rat \<Rightarrow> rat" where
  "fadd a b = fl (a + b)"

definition fsub :: "rat \<Rightarrow> rat \<Rightarrow> rat" where
  "fsub a b = fl (a - b)"

text \<open>
  The rationals that are finite doubles: 53 significant bits at most, a magnitude below
  \<open>2^1024\<close>, and a multiple of \<open>2^-1074\<close> (the denominator is a power of two of 1075 bits
  at most).
\<close>

definition is_double :: "rat \<Rightarrow> bool" where
  "is_double x =
     (fl x = x \<and> (x = 0 \<or> exponent \<bar>x\<bar> < 1024 \<and> bits (snd (quotient_of x)) \<le> 1075))"

section \<open>Numbers as text\<close>

definition digit_char :: "nat \<Rightarrow> char" where
  "digit_char d = ''0123456789'' ! d"

fun digits :: "nat \<Rightarrow> string" where
  "digits n = (if n < 10 then [digit_char n] else digits (n div 10) @ [digit_char (n mod 10)])"

declare digits.simps [simp del]

text \<open>
  \<open>Number::toString\<close> as the source uses it: on integral values only (each call is behind
  \<open>Number.isInteger\<close>, or behind the test \<open>10^21 \<le> x\<close> of \<open>toFixed\<close>). By ECMA-262 the
  digits are those of the integers \<open>n\<close>, \<open>k\<close> and \<open>s\<close> with \<open>10^(k-1) \<le> s < 10^k\<close> such that
  \<open>s * 10^(n-k)\<close> reads back as the same double and \<open>k\<close> is as small as possible (of
  several \<open>s\<close>, the one for which \<open>s * 10^(n-k)\<close> is closest to the number).

  \<open>shortest_at X n0 k\<close> looks for such an \<open>s\<close> of \<open>k\<close> digits for the positive integer \<open>X\<close>
  of \<open>n0\<close> digits: the candidates are the two multiples of \<open>10^(n0-k)\<close> around \<open>X\<close>, and the
  result is the value \<open>s * 10^(n-k)\<close>. \<open>shortest\<close> takes the first \<open>k\<close> that has one.
\<close>

function digits_int :: "int \<Rightarrow> string" where
  "digits_int k =
     (if k < 10 then [digit_char (nat k)]
      else digits_int (k div 10) @ [digit_char (nat (k mod 10))])"
  by pat_completeness auto

termination
  by (relation "measure nat") auto

declare digits_int.simps [simp del]

definition shortest_at :: "int \<Rightarrow> nat \<Rightarrow> nat \<Rightarrow> int option" where
  "shortest_at X n0 k =
     (let p = 10 ^ (n0 - k);
          lo = (X div p) * p;
          hi = lo + p;
          oklo = (fl (of_int lo) = of_int X);
          okhi = (fl (of_int hi) = of_int X)
      in if oklo \<and> okhi then
           Some (if X - lo < hi - X then lo
                 else if hi - X < X - lo then hi
                 else if even (lo div p) then lo else hi)
         else if oklo then Some lo
         else if okhi then Some hi
         else None)"

fun shortest_from :: "int \<Rightarrow> nat \<Rightarrow> nat list \<Rightarrow> int \<times> nat" where
  "shortest_from X n0 [] = (X, n0)"
| "shortest_from X n0 (k # ks) =
     (case shortest_at X n0 k of
        Some m \<Rightarrow> (m, k)
      | None \<Rightarrow> shortest_from X n0 ks)"

definition shortest :: "int \<Rightarrow> int \<times> nat" where
  "shortest X = (let n0 = length (digits_int X) in shortest_from X n0 [1..<Suc n0])"

text \<open>
  The text of an integral number that is not negative: \<open>"0"\<close> for zero; else the digits
  of \<open>s\<close> followed by \<open>n - k\<close> zeros (the decimal digits of \<open>s * 10^(n-k)\<close>) when \<open>n \<le> 21\<close>,
  and exponent notation otherwise. A negative number prints as a minus sign and the text
  of its negation.
\<close>

definition unsigned_toString :: "rat \<Rightarrow> string" where
  "unsigned_toString x =
     (if x = 0 then ''0''
      else let (m, k) = shortest \<lfloor>x\<rfloor>;
               n = length (digits_int m);
               sd = digits_int (m div 10 ^ (n - k))
           in if n \<le> 21 then digits_int m
              else (if k = 1 then sd else [hd sd] @ ''.'' @ tl sd) @ ''e+'' @ digits (n - 1))"

definition Number_toString :: "rat \<Rightarrow> string" where
  "Number_toString x =
     (if x < 0 then ''-'' @ unsigned_toString (- x) else unsigned_toString x)"

text \<open>
  \<open>Number.prototype.toFixed(f)\<close>, after ECMA-262. The sign is split off; from \<open>10^21\<close>
  on the result is that of \<open>Number::toString\<close>; below, \<open>n\<close> is the integer nearest to
  \<open>x * 10^f\<close> (the larger one on a tie), \<open>x\<close> being the exact value of the double.
  \<open>fixed_point\<close> is the rest of the algorithm: the digits of \<open>n\<close> are padded with zeros
  to \<open>f + 1\<close> places at least, and the point goes before the last \<open>f\<close> of them.
\<close>

definition fixed_point :: "nat \<Rightarrow> nat \<Rightarrow> string" where
  "fixed_point f n =
     (let m0 = digits n;
          k0 = length m0;
          m = (if k0 \<le> f then replicate (f + 1 - k0) (CHR ''0'') @ m0 else m0);
          k = (if k0 \<le> f then f + 1 else k0)
      in if f \<noteq> 0 then take (k - f) m @ ''.'' @ drop (k - f) m else m)"

definition toFixed :: "nat \<Rightarrow> rat \<Rightarrow> string" where
  "toFixed f x0 =
     (let s = (if x0 < 0 then ''-'' else '''');
          x = (if x0 < 0 then - x0 else x0)
      in if 10 ^ 21 \<le> x then s @ Number_toString x
         else s @ fixed_point f (nat \<lfloor>x * 10 ^ f + 1 / 2\<rfloor>))"

text \<open>
  \<open>s.replace(/\.?0+$/, "")\<close>: the leftmost position from which the rest of the string is
  an optional point followed by one or more zeros up to the end is cut off there; a string
  with no such position is returned as it is.
\<close>

definition all_zeros :: "string \<Rightarrow> bool" where
  "all_zeros s = (s \<noteq> [] \<and> list_all (\<lambda>c. c = CHR ''0'') s)"

definition zeros_tail :: "string \<Rightarrow> bool" where
  "zeros_tail s = (all_zeros s \<or> (case s of [] \<Rightarrow> False | c # cs \<Rightarrow> c = CHR ''.'' \<and> all_zeros cs))"

fun strip_zeros :: "string \<Rightarrow> string" where
  "strip_zeros [] = []"
| "strip_zeros (c # cs) = (if zeros_tail (c # cs) then [] else c # strip_zeros cs)"

section \<open>formatMetric\<close>

text \<open>
  \<open>toLocaleString\<close> and \<open>toLocaleDateString\<close> depend on the locale of the browser, and
  the local time of a \<open>Date\<close> on its time zone; the model takes them as parameters.
  \<open>localTZA t isUTC\<close> is the offset of local time from UTC in milliseconds, as in
  ECMA-262: at the UTC time value \<open>t\<close> when \<open>isUTC\<close> is true, and for the local time value
  \<open>t\<close> otherwise (for a local time that a clock change skips or repeats, the offset
  before the change).
\<close>

record locale_env =
  toLocaleString :: "rat \<Rightarrow> string"
  toLocaleDateString :: "jsdate \<Rightarrow> string"
  localTZA :: "int \<Rightarrow> bool \<Rightarrow> int"

text \<open>The em dash U+2014, as its three UTF-8 bytes.\<close>

definition em_dash :: string where
  "em_dash = [CHR 0xE2, CHR 0x80, CHR 0x94]"

text \<open>
  \<open>formatMetric\<close>; its last branch, for a value that is neither missing nor a number, has
  no input in this value type.
\<close>

fun formatMetric :: "locale_env \<Rightarrow> jsval \<Rightarrow> string \<Rightarrow> string" where
  "formatMetric env Undefined suffix = em_dash"
| "formatMetric env Null suffix = em_dash"
| "formatMetric env (Num x) suffix = toLocaleString env x @ suffix"

section \<open>calculateTrend\<close>

text \<open>
  The three arrow icons are constant SVG strings in the source; the model keeps their
  identity. \<open>NoArrow\<close> is the empty string, the only falsy one.
\<close>

datatype arrow = NoArrow | SvgUpRight | SvgDownRight | SvgFlat

text \<open>
  The descriptor \<open>{text, arrow, color}\<close> and the options \<open>{inverse, neutral}\<close>, each
  \<open>false\<close> when absent. The field for \<open>inverse\<close> is \<open>inverse_opt\<close>: HOL has a constant
  \<open>inverse\<close> already.
\<close>

record trend =
  trend_text :: string
  trend_arrow :: arrow
  trend_color :: string

record trend_options =
  inverse_opt :: bool
  neutral :: bool

definition noTrend :: trend where
  "noTrend = \<lparr>trend_text = '''', trend_arrow = NoArrow, trend_color = ''var(--dash-trend-flat)''\<rparr>"

text \<open>
  \<open>metricHistory[metricHistory.length - 2]?.metrics?.[metricKey]\<close>; the caller has
  checked that the history has two entries or more.
\<close>

definition previousValue :: "snapshot list \<Rightarrow> string \<Rightarrow> jsval" where
  "previousValue metricHistory metricKey =
     get_prop (metrics (metricHistory ! (length metricHistory - 2))) metricKey"

definition deltaText :: "rat \<Rightarrow> string" where
  "deltaText delta =
     (if delta > 0 then ''+'' else '''') @
     (if isInteger delta then Number_toString delta else toFixed 1 delta)"

text \<open>
  The comparison of the two values, everything after the length check: "no trend" when
  either is \<open>null\<close> or missing, and the delta of the two numbers otherwise.
\<close>

definition trendBetween :: "jsval \<Rightarrow> jsval \<Rightarrow> 'a trend_options_scheme \<Rightarrow> trend" where
  "trendBetween prev cur options =
     (case (prev, cur) of
        (Num previous, Num current) \<Rightarrow>
          (let delta = fsub current previous in
           if delta = 0 then
             \<lparr>trend_text = deltaText delta, trend_arrow = SvgFlat,
              trend_color = ''var(--dash-trend-flat)''\<rparr>
           else
             let isPositiveTrend = (if inverse_opt options then delta < 0 else delta > 0);
                 arrow = (if delta > 0 then SvgUpRight else SvgDownRight)
             in if neutral options then
                  \<lparr>trend_text = deltaText delta, trend_arrow = arrow,
                   trend_color = ''var(--dash-trend-flat)''\<rparr>
                else
                  \<lparr>trend_text = deltaText delta, trend_arrow = arrow,
                   trend_color = (if isPositiveTrend then ''var(--dash-trend-up)''
                                  else ''var(--dash-trend-down)'')\<rparr>)
      | _ \<Rightarrow> noTrend)"

definition calculateTrend ::
  "snapshot list \<Rightarrow> metrics_obj \<Rightarrow> string \<Rightarrow> 'a trend_options_scheme \<Rightarrow> trend" where
  "calculateTrend metricHistory latestMetrics metricKey options =
     (if length metricHistory < 2 then noTrend
      else trendBetween (previousValue metricHistory metricKey)
             (get_prop latestMetrics metricKey) options)"

section \<open>buildTrendChart\<close>

text \<open>
  The options bag, with the defaults of the destructuring already applied: an absent
  \<open>inverse\<close>, \<open>neutral\<close> or \<open>reverse\<close> is \<open>False\<close>, an absent \<open>suffix\<close> is the empty
  string, an absent \<open>yDomain\<close>, \<open>tickFormat\<close> or \<open>valueFormat\<close> is \<open>None\<close>. A \<open>yDomain\<close>
  is the pair \<open>[lo, hi]\<close>; the two formatters are functions.
\<close>

record chart_options = trend_options +
  title :: string
  color :: string
  suffix :: string
  yDomain :: "(rat \<times> rat) option"
  tickFormat :: "(rat \<Rightarrow> string) option"
  valueFormat :: "(jsval \<Rightarrow> string) option"
  reverse :: bool

record chart_point =
  point_date :: jsdate
  point_value :: rat

text \<open>
  \<open>metricHistory.filter(...).map(...)\<close>: the entries whose metric is not \<open>null\<close> or
  missing, projected to \<open>{date, value}\<close>. Every value that passes the filter is a number.
\<close>

definition chartData :: "snapshot list \<Rightarrow> string \<Rightarrow> chart_point list" where
  "chartData metricHistory metricKey =
     List.map_filter
       (\<lambda>entry. case get_prop (metrics entry) metricKey of
                   Num v \<Rightarrow> Some \<lparr>point_date = date entry, point_value = v\<rparr>
                 | _ \<Rightarrow> None)
       metricHistory"

text \<open>The loop \<open>for (const d of chartData) d.value = hi + lo - d.value\<close> under its guard.\<close>

definition reverseData :: "chart_options \<Rightarrow> chart_point list \<Rightarrow> chart_point list" where
  "reverseData options cd =
     (case yDomain options of
        Some (lo, hi) \<Rightarrow>
          if reverse options
          then map (\<lambda>d. d\<lparr>point_value := fsub (fadd hi lo) (point_value d)\<rparr>) cd
          else cd
      | None \<Rightarrow> cd)"

text \<open>A tick format is a function or a format specifier string such as \<open>"d"\<close>.\<close>

datatype tick_format = TickFn "rat \<Rightarrow> string" | TickSpec string

record yAxisOptions =
  y_domain :: "(rat \<times> rat) option"
  y_tickFormat :: tick_format

record xAxisOptions =
  x_domain :: "(jsdate \<times> jsdate) option"

definition suffixTick :: "string \<Rightarrow> rat \<Rightarrow> string" where
  "suffixTick sfx d =
     (if isInteger d then Number_toString d else strip_zeros (toFixed 2 d)) @ sfx"

definition plainTick :: "rat \<Rightarrow> string" where
  "plainTick d = (if isInteger d then Number_toString d else strip_zeros (toFixed 2 d))"

definition yAxis_initial :: "chart_options \<Rightarrow> bool \<Rightarrow> yAxisOptions" where
  "yAxis_initial options allIntegers =
     \<lparr>y_domain = yDomain options,
      y_tickFormat =
        (case tickFormat options of
           Some f \<Rightarrow> TickFn f
         | None \<Rightarrow>
             if suffix options \<noteq> '''' then TickFn (suffixTick (suffix options))
             else if allIntegers then TickSpec ''d''
             else TickFn plainTick)\<rparr>"

text \<open>The later override of the tick format for reversed charts.\<close>

definition yAxis_final :: "chart_options \<Rightarrow> yAxisOptions \<Rightarrow> yAxisOptions" where
  "yAxis_final options yAxis =
     (case (yDomain options, tickFormat options) of
        (Some (lo, hi), Some origTickFormat) \<Rightarrow>
          if reverse options
          then yAxis\<lparr>y_tickFormat := TickFn (\<lambda>d. origTickFormat (fsub (fadd hi lo) d))\<rparr>
          else yAxis
      | _ \<Rightarrow> yAxis)"

definition msPerDay :: int where
  "msPerDay = 86400000"

text \<open>\<open>LocalTime(t)\<close> and \<open>UTC(t)\<close> of ECMA-262.\<close>

definition LocalTime :: "locale_env \<Rightarrow> int \<Rightarrow> int" where
  "LocalTime env t = t + localTZA env t True"

definition UTC :: "locale_env \<Rightarrow> int \<Rightarrow> int" where
  "UTC env t = t - localTZA env t False"

text \<open>
  \<open>d.setDate(d.getDate() + k)\<close>. By ECMA-262, \<open>getDate\<close> is the day of the month of the
  local time, and \<open>setDate\<close> builds a local time from the year and the month of the local
  time, the new day number and the time within the day of the local time, and stores its
  \<open>UTC\<close>. The day number moves by \<open>k\<close>, so the local time value moves by \<open>k\<close> days of
  86400000 ms, which is then read as a local time and converted to UTC.
\<close>

definition shiftDate :: "locale_env \<Rightarrow> int \<Rightarrow> jsdate \<Rightarrow> jsdate" where
  "shiftDate env k t = UTC env (LocalTime env t + k * msPerDay)"

definition xAxis :: "locale_env \<Rightarrow> chart_point list \<Rightarrow> xAxisOptions" where
  "xAxis env cd =
     (case cd of
        [p] \<Rightarrow> (let pointDate = point_date p;
                    firstDay = shiftDate env (- 6) pointDate;
                    lastDay = pointDate
                in \<lparr>x_domain = Some (firstDay, lastDay)\<rparr>)
      | _ \<Rightarrow> \<lparr>x_domain = None\<rparr>)"

definition displayValue :: "locale_env \<Rightarrow> chart_options \<Rightarrow> rat \<Rightarrow> string" where
  "displayValue env options v =
     (case (yDomain options, valueFormat options) of
        (Some (lo, hi), Some vf) \<Rightarrow>
          if reverse options then vf (Num (fsub (fadd hi lo) v))
          else formatMetric env (Num v) (suffix options)
      | _ \<Rightarrow> formatMetric env (Num v) (suffix options))"

datatype node = EmptyNode | ArrowSpan string arrow | TextSpan string

definition makeArrowNode :: "trend \<Rightarrow> node" where
  "makeArrowNode t =
     (if trend_arrow t = NoArrow then EmptyNode else ArrowSpan (trend_color t) (trend_arrow t))"

definition chartDeltaText :: "snapshot list \<Rightarrow> chart_options \<Rightarrow> trend \<Rightarrow> string" where
  "chartDeltaText metricHistory options metricTrend =
     (if trend_text metricTrend \<noteq> ''''
      then trend_text metricTrend @ suffix options @ '' from previous''
      else if length metricHistory = 1 then ''No trend'' else '''')"

text \<open>
  The marks handed to the plotting library, with the options that tell them apart:
  stroke or fill colour, the dot radius, the area baseline, the tooltip title.
\<close>

datatype mark =
    RuleY "rat list" string
  | Dot "chart_point list" string rat
  | AreaY "chart_point list" rat string
  | LineY "chart_point list" string
  | Tip "chart_point list" "chart_point \<Rightarrow> string"

definition tipTitle :: "locale_env \<Rightarrow> chart_options \<Rightarrow> chart_point \<Rightarrow> string" where
  "tipTitle env options point =
     toLocaleDateString env (point_date point) @ '': '' @
     displayValue env options (point_value point)"

definition marks :: "locale_env \<Rightarrow> chart_options \<Rightarrow> chart_point list \<Rightarrow> mark list" where
  "marks env options cd =
     (case cd of
        [p] \<Rightarrow> [RuleY [point_value p] (color options), Dot cd (color options) 3]
      | _ \<Rightarrow>
          (let areaBaseline = (case yDomain options of Some (lo, hi) \<Rightarrow> lo | None \<Rightarrow> 0)
           in [AreaY cd areaBaseline (color options),
               LineY cd (color options),
               Dot cd (color options) (5 / 2),
               Tip cd (tipTitle env options)]))"

record plot =
  plot_x :: xAxisOptions
  plot_y :: yAxisOptions
  plot_marks :: "mark list"

record chart_card =
  card_title :: string
  card_big :: string
  card_trendArrowHtml :: node
  card_deltaNode :: node
  card_chart :: plot

datatype card = NoData string | Chart chart_card

definition buildTrendChart ::
  "locale_env \<Rightarrow> snapshot list \<Rightarrow> metrics_obj \<Rightarrow> string \<Rightarrow> chart_options \<Rightarrow> card" where
  "buildTrendChart env metricHistory latestMetrics metricKey options =
     (let cd0 = chartData metricHistory metricKey in
      if length cd0 = 0 then NoData (title options)
      else
        let allIntegers = list_all (\<lambda>d. isInteger (point_value d)) cd0;
            cd = reverseData options cd0;
            yAxis0 = yAxis_initial options allIntegers;
            xAxisOptions = xAxis env cd;
            metricTrend = calculateTrend metricHistory latestMetrics metricKey options;
            yAxis1 = yAxis_final options yAxis0;
            trendArrowHtml =
              (if trend_arrow metricTrend \<noteq> NoArrow then makeArrowNode metricTrend
               else EmptyNode);
            dt = chartDeltaText metricHistory options metricTrend;
            deltaNode = (if dt \<noteq> '''' then TextSpan dt else EmptyNode)
        in Chart
             \<lparr>card_title = title options,
              card_big =
                (case valueFormat options of
                   Some vf \<Rightarrow> vf (get_prop latestMetrics metricKey)
                 | None \<Rightarrow> formatMetric env (get_prop latestMetrics metricKey) (suffix options)),
              card_trendArrowHtml = trendArrowHtml,
              card_deltaNode = deltaNode,
              card_chart =
                \<lparr>plot_x = xAxisOptions, plot_y = yAxis1, plot_marks = marks env options cd\<rparr>\<rparr>)"

definition is_area_or_line :: "mark \<Rightarrow> bool" where
  "is_area_or_line m = (case m of AreaY cd b c \<Rightarrow> True | LineY cd c \<Rightarrow> True | _ \<Rightarrow> False)"

section \<open>An environment and options for the examples\<close>

text \<open>
  An environment for the examples, which apply its \<open>toLocaleString\<close> to small integers
  only: the \<open>en-US\<close> locale with its defaults, groups of three digits separated by commas,
  at most three decimals (rounded half away from zero), trailing zeros dropped. The date
  text of the example environment is the time value in digits. Its time zone is UTC.
\<close>

fun group_thousands :: "nat \<Rightarrow> string" where
  "group_thousands n =
     (if n < 1000 then digits n
      else group_thousands (n div 1000) @ '','' @
           [digit_char (n mod 1000 div 100), digit_char (n mod 100 div 10), digit_char (n mod 10)])"

declare group_thousands.simps [simp del]

definition en_US_number :: "rat \<Rightarrow> string" where
  "en_US_number x =
     (let n = nat \<lfloor>\<bar>x\<bar> * 1000 + 1 / 2\<rfloor>; fr = n mod 1000
      in (if x < 0 then ''-'' else '''') @ group_thousands (n div 1000) @
         (if fr = 0 then ''''
          else strip_zeros (''.'' @ [digit_char (fr div 100), digit_char (fr mod 100 div 10),
                                     digit_char (fr mod 10)])))"

definition example_env :: locale_env where
  "example_env =
     \<lparr>toLocaleString = en_US_number,
      toLocaleDateString = (\<lambda>t. Number_toString (of_int t)),
      localTZA = (\<lambda>t isUTC. 0)\<rparr>"

text \<open>
  The same environment in the time zone of New York around the clock change of March
  2024: five hours behind UTC until 10 March 2024, 07:00 UTC (1710054000000), and four
  hours behind from then on. On the local clock 02:00 is followed by 03:00; the local
  times before 03:00 (1710039600000 as a local time value) are read with the offset
  before the change.
\<close>

definition new_york_env :: locale_env where
  "new_york_env =
     example_env\<lparr>localTZA :=
       (\<lambda>t isUTC. if isUTC then (if t < 1710054000000 then - 18000000 else - 14400000)
                  else (if t < 1710039600000 then - 18000000 else - 14400000))\<rparr>"

text \<open>The options of a call that passes only a title.\<close>

definition example_options :: chart_options where
  "example_options =
     \<lparr>inverse_opt = False, neutral = False, title = ''Rating'', color = ''var(--dash-trend-flat)'',
      suffix = '''', yDomain = None, tickFormat = None, valueFormat = None, reverse = False\<rparr>"

section \<open>The rendering rules in the specification's words\<close>


text \<open>
  The tick label as the specification words it: an integer plainly, anything else to two
  decimals (\<open>n\<close> hundredths) with trailing zeros trimmed, and the point with them when
  both decimals go.
\<close>

definition spec_tickText :: "rat \<Rightarrow> string" where
  "spec_tickText d =
     (if d < 0 then ''-'' else '''') @
     (if isInteger d then digits (nat \<bar>\<lfloor>d\<rfloor>\<bar>)
      else let n = nat \<lfloor>\<bar>d\<bar> * 100 + 1 / 2\<rfloor>; a = n div 10 mod 10; b = n mod 10
           in digits (n div 100) @
              (if a = 0 \<and> b = 0 then ''''
               else if b = 0 then ''.'' @ [digit_char a]
               else ''.'' @ [digit_char a, digit_char b]))"

text \<open>The number a string of decimal digits spells.\<close>

definition digits_value :: "string \<Rightarrow> nat" where
  "digits_value s = foldl (\<lambda>acc c. 10 * acc + (of_char c - 48)) 0 s"


section \<open>The object store\<close>

text \<open>
  The functions above are written over values. To say which objects \<open>calculateTrend\<close>
  and \<open>buildTrendChart\<close> write, the objects they touch are placed in a store: an address
  is an index into the list of objects, \<open>alloc\<close> appends a fresh object, \<open>overwrite\<close>
  replaces the object at an address. A history is an array of references to entries, an
  entry refers to its \<open>Date\<close> and to its metrics object, and a chart point refers to the
  \<open>Date\<close> of the entry it was projected from. Reading a property of something that is
  not the expected object is a \<open>TypeError\<close>: the call does not return (\<open>None\<close>).
\<close>

type_synonym addr = nat

datatype obj =
    DateObj jsdate
  | MetricsObj metrics_obj
  | EntryObj addr addr
  | ArrayObj "addr list"
  | PointObj addr jsval
  | YAxisObj "(rat \<times> rat) option" "tick_format option"
  | XAxisObj "(addr \<times> addr) option"

type_synonym store = "obj list"

definition alloc :: "obj \<Rightarrow> store \<Rightarrow> addr \<times> store" where
  "alloc ob st = (length st, st @ [ob])"

definition read :: "store \<Rightarrow> addr \<Rightarrow> obj option" where
  "read st a = (if a < length st then Some (st ! a) else None)"

definition overwrite :: "addr \<Rightarrow> obj \<Rightarrow> store \<Rightarrow> store" where
  "overwrite a ob st = st[a := ob]"

definition read_array :: "store \<Rightarrow> addr \<Rightarrow> addr list option" where
  "read_array st a = (case read st a of Some (ArrayObj es) \<Rightarrow> Some es | _ \<Rightarrow> None)"

definition read_metrics :: "store \<Rightarrow> addr \<Rightarrow> metrics_obj option" where
  "read_metrics st a = (case read st a of Some (MetricsObj ms) \<Rightarrow> Some ms | _ \<Rightarrow> None)"

definition read_date :: "store \<Rightarrow> addr \<Rightarrow> jsdate option" where
  "read_date st a = (case read st a of Some (DateObj t) \<Rightarrow> Some t | _ \<Rightarrow> None)"

text \<open>\<open>entry.date\<close> (a reference) and \<open>entry.metrics[key]\<close> (a value).\<close>

definition entry_date :: "store \<Rightarrow> addr \<Rightarrow> addr option" where
  "entry_date st e = (case read st e of Some (EntryObj d m) \<Rightarrow> Some d | _ \<Rightarrow> None)"

definition entry_metric :: "store \<Rightarrow> string \<Rightarrow> addr \<Rightarrow> jsval option" where
  "entry_metric st key e =
     (case read st e of
        Some (EntryObj d m) \<Rightarrow> map_option (\<lambda>ms. get_prop ms key) (read_metrics st m)
      | _ \<Rightarrow> None)"

text \<open>\<open>.filter(...)\<close>: the references of the entries that are kept; nothing is written.\<close>

fun filter_store :: "store \<Rightarrow> string \<Rightarrow> addr list \<Rightarrow> addr list option" where
  "filter_store st key [] = Some []"
| "filter_store st key (e # es) =
     (case entry_metric st key e of
        None \<Rightarrow> None
      | Some v \<Rightarrow>
          (case filter_store st key es of
             None \<Rightarrow> None
           | Some r \<Rightarrow> Some (if is_nullish v then r else e # r)))"

text \<open>
  \<open>.map(...)\<close>: one fresh \<open>{date, value}\<close> object for each entry; \<open>date\<close> is the entry's
  own \<open>Date\<close> reference, not a copy.
\<close>

fun map_store :: "string \<Rightarrow> addr list \<Rightarrow> store \<Rightarrow> (addr list \<times> store) option" where
  "map_store key [] st = Some ([], st)"
| "map_store key (e # es) st =
     (case (entry_date st e, entry_metric st key e) of
        (Some d, Some v) \<Rightarrow>
          (let (pa, st1) = alloc (PointObj d v) st
           in case map_store key es st1 of
                None \<Rightarrow> None
              | Some (ps, st2) \<Rightarrow> Some (pa # ps, st2))
      | _ \<Rightarrow> None)"

text \<open>\<open>chartData.every((d) => Number.isInteger(d.value))\<close>: reads only.\<close>

fun every_integer :: "store \<Rightarrow> addr list \<Rightarrow> bool option" where
  "every_integer st [] = Some True"
| "every_integer st (a # as) =
     (case read st a of
        Some (PointObj d v) \<Rightarrow>
          map_option (\<lambda>b. (case v of Num x \<Rightarrow> isInteger x | _ \<Rightarrow> False) \<and> b)
            (every_integer st as)
      | _ \<Rightarrow> None)"

text \<open>
  The loop \<open>for (const d of chartData) d.value = hi + lo - d.value\<close>. Every value it
  meets is a number: the filter has dropped the others.
\<close>

fun reverse_store :: "rat \<Rightarrow> rat \<Rightarrow> addr list \<Rightarrow> store \<Rightarrow> store option" where
  "reverse_store lo hi [] st = Some st"
| "reverse_store lo hi (a # as) st =
     (case read st a of
        Some (PointObj d (Num v)) \<Rightarrow>
          reverse_store lo hi as (overwrite a (PointObj d (Num (fsub (fadd hi lo) v))) st)
      | _ \<Rightarrow> None)"

text \<open>
  \<open>yAxisOptions\<close>: a fresh object, then the assignments to its \<open>domain\<close> and
  \<open>tickFormat\<close>, and the later assignment for reversed charts.
\<close>

definition set_domain :: "addr \<Rightarrow> rat \<times> rat \<Rightarrow> store \<Rightarrow> store" where
  "set_domain a yd st =
     (case read st a of Some (YAxisObj d tf) \<Rightarrow> overwrite a (YAxisObj (Some yd) tf) st | _ \<Rightarrow> st)"

definition set_tickFormat :: "addr \<Rightarrow> tick_format \<Rightarrow> store \<Rightarrow> store" where
  "set_tickFormat a tf st =
     (case read st a of Some (YAxisObj d t) \<Rightarrow> overwrite a (YAxisObj d (Some tf)) st | _ \<Rightarrow> st)"

definition yAxis_store :: "chart_options \<Rightarrow> bool \<Rightarrow> store \<Rightarrow> addr \<times> store" where
  "yAxis_store options allIntegers st =
     (let (ya, st1) = alloc (YAxisObj None None) st;
          st2 = (case yDomain options of Some yd \<Rightarrow> set_domain ya yd st1 | None \<Rightarrow> st1);
          st3 = set_tickFormat ya (y_tickFormat (yAxis_initial options allIntegers)) st2
      in (ya, st3))"

definition yAxis_final_store :: "chart_options \<Rightarrow> addr \<Rightarrow> store \<Rightarrow> store" where
  "yAxis_final_store options ya st =
     (case (yDomain options, tickFormat options) of
        (Some (lo, hi), Some origTickFormat) \<Rightarrow>
          if reverse options
          then set_tickFormat ya (TickFn (\<lambda>d. origTickFormat (fsub (fadd hi lo) d))) st
          else st
      | _ \<Rightarrow> st)"

text \<open>
  \<open>xAxisOptions\<close>: a fresh object; for a single point, \<open>new Date(pointDate)\<close> twice (two
  fresh copies of the point's \<open>Date\<close>), \<open>setDate\<close> on the first copy, and the assignment
  of the domain.
\<close>

definition xAxis_store :: "locale_env \<Rightarrow> addr list \<Rightarrow> store \<Rightarrow> (addr \<times> store) option" where
  "xAxis_store env ps st =
     (let (xa, st1) = alloc (XAxisObj None) st
      in case ps of
           [pa] \<Rightarrow>
             (case read st1 pa of
                Some (PointObj pointDate v) \<Rightarrow>
                  (case read_date st1 pointDate of
                     Some t \<Rightarrow>
                       (let (firstDay, st2) = alloc (DateObj t) st1;
                            (lastDay, st3) = alloc (DateObj t) st2;
                            st4 = overwrite firstDay (DateObj (shiftDate env (- 6) t)) st3;
                            st5 = overwrite xa (XAxisObj (Some (firstDay, lastDay))) st4
                        in Some (xa, st5))
                   | None \<Rightarrow> None)
              | _ \<Rightarrow> None)
         | _ \<Rightarrow> Some (xa, st1))"

text \<open>
  \<open>calculateTrend\<close> over the store. It reads the history array, the entry before the
  last and its metrics object (the optional chaining turns a missing entry or metrics
  object into \<open>undefined\<close>), and \<open>latestMetrics[metricKey]\<close>; it has no assignment and no
  call that writes, so the store it returns is the one it was given.
\<close>

definition previous_store :: "store \<Rightarrow> addr list \<Rightarrow> string \<Rightarrow> jsval" where
  "previous_store st es key =
     (case entry_metric st key (es ! (length es - 2)) of None \<Rightarrow> Undefined | Some v \<Rightarrow> v)"

definition calculateTrend_store ::
  "store \<Rightarrow> addr \<Rightarrow> addr \<Rightarrow> string \<Rightarrow> 'a trend_options_scheme \<Rightarrow> (trend \<times> store) option" where
  "calculateTrend_store st metricHistory latestMetrics metricKey options =
     (case read_array st metricHistory of
        None \<Rightarrow> None
      | Some es \<Rightarrow>
          if length es < 2 then Some (noTrend, st)
          else
            (case read_metrics st latestMetrics of
               None \<Rightarrow> None
             | Some latest \<Rightarrow>
                 Some (trendBetween (previous_store st es metricKey)
                         (get_prop latest metricKey) options, st)))"

text \<open>
  \<open>buildTrendChart\<close> over the store, in the order of the source. \<open>project_store\<close> is
  the projection: \<open>filter\<close> and \<open>map\<close>, each returning a fresh array. \<open>reverse_stage\<close> is
  the reversal loop under its guard. \<open>chart_store\<close> is the rest for a series that is not
  empty: \<open>allIntegers\<close>, the reversal, the axis objects, the trend and the later tick
  format. The result of \<open>buildTrendChart_store\<close> is \<open>None\<close> in second place for the "no
  data" card, and otherwise the addresses of the chart data array and of the two axis
  objects, with the trend. The plotting library and the markup template receive these
  objects and do not write to them.
\<close>

definition project_store ::
  "store \<Rightarrow> addr \<Rightarrow> string \<Rightarrow> (addr \<times> addr list \<times> store) option" where
  "project_store st metricHistory metricKey =
     (case read_array st metricHistory of
        None \<Rightarrow> None
      | Some entries \<Rightarrow>
          (case filter_store st metricKey entries of
             None \<Rightarrow> None
           | Some kept \<Rightarrow>
               (let (filtered, st1) = alloc (ArrayObj kept) st
                in case map_store metricKey kept st1 of
                     None \<Rightarrow> None
                   | Some (ps, st2) \<Rightarrow>
                       (let (chartDataRef, st3) = alloc (ArrayObj ps) st2
                        in Some (chartDataRef, ps, st3)))))"

definition reverse_stage :: "chart_options \<Rightarrow> addr list \<Rightarrow> store \<Rightarrow> store option" where
  "reverse_stage options ps st =
     (case yDomain options of
        Some (lo, hi) \<Rightarrow> if reverse options then reverse_store lo hi ps st else Some st
      | None \<Rightarrow> Some st)"

definition chart_store ::
  "locale_env \<Rightarrow> store \<Rightarrow> addr \<Rightarrow> addr \<Rightarrow> string \<Rightarrow> chart_options \<Rightarrow> addr list \<Rightarrow>
   ((addr \<times> addr) \<times> trend \<times> store) option" where
  "chart_store env st metricHistory latestMetrics metricKey options ps =
     (case every_integer st ps of
        None \<Rightarrow> None
      | Some allIntegers \<Rightarrow>
          (case reverse_stage options ps st of
             None \<Rightarrow> None
           | Some st4 \<Rightarrow>
               (let (ya, st5) = yAxis_store options allIntegers st4
                in case xAxis_store env ps st5 of
                     None \<Rightarrow> None
                   | Some (xa, st6) \<Rightarrow>
                       (case calculateTrend_store st6 metricHistory latestMetrics metricKey
                               options of
                          None \<Rightarrow> None
                        | Some (metricTrend, st7) \<Rightarrow>
                            Some ((xa, ya), metricTrend, yAxis_final_store options ya st7)))))"

definition buildTrendChart_store ::
  "locale_env \<Rightarrow> store \<Rightarrow> addr \<Rightarrow> addr \<Rightarrow> string \<Rightarrow> chart_options \<Rightarrow>
   (((addr \<times> addr \<times> addr) \<times> trend) option \<times> store) option" where
  "buildTrendChart_store env st metricHistory latestMetrics metricKey options =
     (case project_store st metricHistory metricKey of
        None \<Rightarrow> None
      | Some (chartDataRef, ps, st3) \<Rightarrow>
          if length ps = 0 then Some (None, st3)
          else
            (case chart_store env st3 metricHistory latestMetrics metricKey options ps of
               None \<Rightarrow> None
             | Some ((xa, ya), metricTrend, st') \<Rightarrow>
                 Some (Some ((chartDataRef, xa, ya), metricTrend), st')))"

text \<open>
  What the store holds at an input address, as the values of the first model: the
  snapshots of a history array and a metrics object. \<open>None\<close> when the address does not
  lead to objects of the expected shape.
\<close>

definition snapshot_at :: "store \<Rightarrow> addr \<Rightarrow> snapshot option" where
  "snapshot_at st e =
     (case read st e of
        Some (EntryObj d m) \<Rightarrow>
          (case (read_date st d, read_metrics st m) of
             (Some t, Some ms) \<Rightarrow> Some \<lparr>date = t, metrics = ms\<rparr>
           | _ \<Rightarrow> None)
      | _ \<Rightarrow> None)"

fun snapshots_at :: "store \<Rightarrow> addr list \<Rightarrow> snapshot list option" where
  "snapshots_at st [] = Some []"
| "snapshots_at st (e # es) =
     (case (snapshot_at st e, snapshots_at st es) of
        (Some s, Some ss) \<Rightarrow> Some (s # ss)
      | _ \<Rightarrow> None)"

definition history_at :: "store \<Rightarrow> addr \<Rightarrow> snapshot list option" where
  "history_at st a = (case read_array st a of Some es \<Rightarrow> snapshots_at st es | None \<Rightarrow> None)"

definition point_at :: "store \<Rightarrow> addr \<Rightarrow> chart_point option" where
  "point_at st a =
     (case read st a of
        Some (PointObj d (Num v)) \<Rightarrow>
          (case read_date st d of
             Some t \<Rightarrow> Some \<lparr>point_date = t, point_value = v\<rparr>
           | None \<Rightarrow> None)
      | _ \<Rightarrow> None)"

fun points_at :: "store \<Rightarrow> addr list \<Rightarrow> chart_point list option" where
  "points_at st [] = Some []"
| "points_at st (a # as) =
     (case (point_at st a, points_at st as) of
        (Some p, Some ps) \<Rightarrow> Some (p # ps)
      | _ \<Rightarrow> None)"

definition chartData_at :: "store \<Rightarrow> addr \<Rightarrow> chart_point list option" where
  "chartData_at st a = (case read_array st a of Some ps \<Rightarrow> points_at st ps | None \<Rightarrow> None)"

text \<open>
  A store extends another when every object of the first is still there, unchanged, at
  its address.
\<close>

definition extends :: "store \<Rightarrow> store \<Rightarrow> bool" where
  "extends st st' = (length st \<le> length st' \<and> take (length st) st' = st)"

text \<open>
  A store for the examples: two entries (their dates and metrics objects), the history
  array at address 6 and the latest metrics at address 7.
\<close>

definition example_store :: store where
  "example_store =
     [DateObj 0, MetricsObj [''y'' \<mapsto> Num 2], EntryObj 0 1,
      DateObj 86400000, MetricsObj [''y'' \<mapsto> Num 4], EntryObj 3 4,
      ArrayObj [2, 5], MetricsObj [''y'' \<mapsto> Num 4]]"

definition example_history :: "snapshot list" where
  "example_history =
     [\<lparr>date = 0, metrics = [''y'' \<mapsto> Num 2]\<rparr>, \<lparr>date = 86400000, metrics = [''y'' \<mapsto> Num 4]\<rparr>]"

section \<open>Rounding to the nearest double\<close>

text \<open>
  Rounding keeps the sign: the nearest double of a number that is not zero is not zero,
  on the same side of zero. So the comparisons of a computed difference with zero are
  those of the two operands.
\<close>

lemma pow2_powi: "pow2 e = 2 powi e"
  by (simp add: pow2_def power_int_def inverse_eq_divide power_one_over)

lemma pow2_pos [simp]: "0 < pow2 e"
  by (simp add: pow2_def)

lemma pow2_mono: "a \<le> b \<Longrightarrow> pow2 a \<le> pow2 b"
  unfolding pow2_powi by (rule power_int_increasing) simp_all

lemma pow2_diff: "pow2 (a - b) = pow2 a / pow2 b"
  unfolding pow2_powi by (rule power_int_diff) simp

lemma pow2_nat: "pow2 (int n) = 2 ^ n"
  by (simp add: pow2_def)

lemma bits_bounds: "0 < k \<Longrightarrow> 2 ^ bits k \<le> 2 * k \<and> k < 2 ^ bits k"
proof (induction k rule: bits.induct)
  case (1 k)
  show ?case
  proof (cases "k = 1")
    case True
    then show ?thesis by (simp add: bits.simps[of 1] bits.simps[of 0])
  next
    case False
    with 1(2) have h: "0 < k div 2" by linarith
    from 1(1) 1(2) h have ih: "2 ^ bits (k div 2) \<le> 2 * (k div 2) \<and> k div 2 < 2 ^ bits (k div 2)"
      by simp
    have b: "bits k = Suc (bits (k div 2))" using 1(2) by (subst bits.simps) simp
    have "2 * (k div 2) \<le> k" "k < 2 * (k div 2) + 2" by linarith+
    with ih show ?thesis unfolding b by simp
  qed
qed

lemma exponent_lower:
  assumes "0 < y"
  shows "pow2 (exponent y) \<le> y"
proof -
  obtain a b where q: "quotient_of y = (a, b)" by (cases "quotient_of y")
  have b: "0 < b" using q by (rule quotient_of_denom_pos)
  have y: "y = of_int a / of_int b" using q by (rule quotient_of_div)
  have a: "0 < a" using assms b unfolding y by (simp add: zero_less_divide_iff)
  define d where "d = int (bits a) - int (bits b)"
  have e: "exponent y = (if pow2 d \<le> y then d else d - 1)"
    by (simp add: exponent_def q d_def Let_def)
  have la: "(2::rat) ^ bits a \<le> 2 * of_int a"
  proof -
    have "(2::int) ^ bits a \<le> 2 * a" using bits_bounds[OF a] by simp
    then have "(of_int ((2::int) ^ bits a) :: rat) \<le> of_int (2 * a)" by (simp only: of_int_le_iff)
    then show ?thesis by simp
  qed
  have ub: "(of_int b :: rat) < 2 ^ bits b"
  proof -
    have "b < 2 ^ bits b" using bits_bounds[OF b] by simp
    then have "(of_int b :: rat) < of_int (2 ^ bits b)" by (simp only: of_int_less_iff)
    then show ?thesis by simp
  qed
  have "pow2 (d - 1) = 2 ^ bits a / 2 ^ bits b / 2"
    unfolding d_def by (simp add: pow2_diff pow2_nat) (simp add: pow2_def)
  also have "\<dots> \<le> 2 * of_int a / 2 ^ bits b / 2"
    by (intro divide_right_mono la) simp_all
  also have "\<dots> = of_int a / 2 ^ bits b" by simp
  also have "\<dots> \<le> of_int a / of_int b"
    using ub a b by (simp add: frac_le)
  finally have "pow2 (d - 1) \<le> y" unfolding y .
  then show ?thesis unfolding e by simp
qed

lemma roundTiesToEven_ge: "1 \<le> m \<Longrightarrow> 1 \<le> roundTiesToEven m"
proof -
  assume "1 \<le> m"
  then have "1 \<le> \<lfloor>m\<rfloor>" by simp
  then show ?thesis by (simp add: roundTiesToEven_def Let_def)
qed

lemma roundTiesToEven_le: "m \<le> - 1 \<Longrightarrow> roundTiesToEven m \<le> - 1"
proof -
  assume m: "m \<le> - 1"
  then have f: "\<lfloor>m\<rfloor> \<le> - 1" by (simp add: floor_le_iff)
  show ?thesis
  proof (cases "of_int \<lfloor>m\<rfloor> = m")
    case True
    have "m - of_int \<lfloor>m\<rfloor> = 0" unfolding True by simp
    then show ?thesis using f by (simp add: roundTiesToEven_def Let_def)
  next
    case False
    then have "of_int \<lfloor>m\<rfloor> < m" using of_int_floor_le[of m] by linarith
    then have "of_int \<lfloor>m\<rfloor> < (- 1 :: rat)" using m by linarith
    then have "\<lfloor>m\<rfloor> < - 1" by (metis of_int_less_iff of_int_minus of_int_1)
    then have "\<lfloor>m\<rfloor> + 1 \<le> - 1" by simp
    then show ?thesis using f by (simp add: roundTiesToEven_def Let_def)
  qed
qed

lemma fl_0 [simp]: "fl 0 = 0"
  by (simp add: fl_def)

lemma fl_pos: "0 < x \<Longrightarrow> 0 < fl x"
proof -
  assume x: "0 < x"
  define q where "q = pow2 (exponent \<bar>x\<bar> - 52)"
  have q: "0 < q" by (simp add: q_def)
  have "q \<le> pow2 (exponent \<bar>x\<bar>)" unfolding q_def by (rule pow2_mono) simp
  also have "\<dots> \<le> \<bar>x\<bar>" by (rule exponent_lower) (use x in simp)
  finally have "q \<le> x" using x by simp
  then have "1 \<le> x / q" using q by (simp add: le_divide_eq)
  then have "1 \<le> roundTiesToEven (x / q)" by (rule roundTiesToEven_ge)
  then have "0 < (of_int (roundTiesToEven (x / q)) :: rat)" by simp
  then have "0 < of_int (roundTiesToEven (x / q)) * q" using q by simp
  then show ?thesis using x by (simp add: fl_def q_def Let_def)
qed

lemma fl_neg: "x < 0 \<Longrightarrow> fl x < 0"
proof -
  assume x: "x < 0"
  define q where "q = pow2 (exponent \<bar>x\<bar> - 52)"
  have q: "0 < q" by (simp add: q_def)
  have "q \<le> pow2 (exponent \<bar>x\<bar>)" unfolding q_def by (rule pow2_mono) simp
  also have "\<dots> \<le> \<bar>x\<bar>" by (rule exponent_lower) (use x in simp)
  finally have "q \<le> - x" using x by simp
  then have "x / q \<le> - 1" using q by (simp add: divide_le_eq) 
  then have "roundTiesToEven (x / q) \<le> - 1" by (rule roundTiesToEven_le)
  then have "(of_int (roundTiesToEven (x / q)) :: rat) < 0" by simp
  then have "of_int (roundTiesToEven (x / q)) * q < 0" using q by (simp add: mult_less_0_iff)
  then show ?thesis using x by (simp add: fl_def q_def Let_def)
qed

lemma fl_sign [simp]: "0 < fl x \<longleftrightarrow> 0 < x" "fl x < 0 \<longleftrightarrow> x < 0" "fl x = 0 \<longleftrightarrow> x = 0"
  using fl_pos[of x] fl_neg[of x] by (cases "x = 0"; cases "0 < x"; force)+

lemma fsub_sign [simp]:
  "0 < fsub c p \<longleftrightarrow> p < c" "fsub c p < 0 \<longleftrightarrow> c < p" "fsub c p = 0 \<longleftrightarrow> c = p"
  by (simp_all add: fsub_def)

lemma fsub_0_right: "fl c = c \<Longrightarrow> fsub c 0 = c"
  by (simp add: fsub_def)

lemma roundTiesToEven_minus: "roundTiesToEven (- m) = - roundTiesToEven m"
proof (cases "of_int \<lfloor>m\<rfloor> = m")
  case True
  define i where "i = \<lfloor>m\<rfloor>"
  have m: "m = of_int i" unfolding i_def by (rule True[symmetric])
  show ?thesis unfolding m by (simp add: roundTiesToEven_def Let_def flip: of_int_minus)
next
  case False
  then have lt: "of_int \<lfloor>m\<rfloor> < m" using of_int_floor_le[of m] by linarith
  have "m < of_int \<lfloor>m\<rfloor> + 1" by linarith
  have c: "\<lfloor>- m\<rfloor> = - \<lfloor>m\<rfloor> - 1"
    by (rule floor_unique) (use lt \<open>m < of_int \<lfloor>m\<rfloor> + 1\<close> in simp_all)
  show ?thesis
    unfolding roundTiesToEven_def Let_def c
    using lt \<open>m < of_int \<lfloor>m\<rfloor> + 1\<close> by (auto simp: field_simps)
qed

lemma fl_minus: "fl (- x) = - fl x"
  by (simp add: fl_def Let_def roundTiesToEven_minus)

lemma fsub_0_left: "fl p = p \<Longrightarrow> fsub 0 p = - p"
  by (simp add: fsub_def fl_minus)

text \<open>
  The integers up to \<open>2^53\<close> are doubles, and everything from \<open>2^53\<close> on rounds to
  \<open>2^53\<close> or more. So an integer that reads back as a positive integer below \<open>2^53\<close>
  is that integer.
\<close>

lemma pow2_strict_mono: "a < b \<Longrightarrow> pow2 a < pow2 b"
  unfolding pow2_powi by (rule power_int_strict_increasing) simp_all

lemma pow2_add: "pow2 (a + b) = pow2 a * pow2 b"
  unfolding pow2_powi by (rule power_int_add) simp

lemma exponent_upper:
  assumes "0 < y"
  shows "y < pow2 (exponent y + 1)"
proof -
  obtain a b where q: "quotient_of y = (a, b)" by (cases "quotient_of y")
  have b: "0 < b" using q by (rule quotient_of_denom_pos)
  have y: "y = of_int a / of_int b" using q by (rule quotient_of_div)
  have a: "0 < a" using assms b unfolding y by (simp add: zero_less_divide_iff)
  define d where "d = int (bits a) - int (bits b)"
  have e: "exponent y = (if pow2 d \<le> y then d else d - 1)"
    by (simp add: exponent_def q d_def Let_def)
  have ua: "(of_int a :: rat) < 2 ^ bits a"
  proof -
    have "a < 2 ^ bits a" using bits_bounds[OF a] by simp
    then have "(of_int a :: rat) < of_int (2 ^ bits a)" by (simp only: of_int_less_iff)
    then show ?thesis by simp
  qed
  have lb: "(2::rat) ^ bits b \<le> 2 * of_int b"
  proof -
    have "(2::int) ^ bits b \<le> 2 * b" using bits_bounds[OF b] by simp
    then have "(of_int ((2::int) ^ bits b) :: rat) \<le> of_int (2 * b)" by (simp only: of_int_le_iff)
    then show ?thesis by simp
  qed
  have "(of_int a :: rat) / of_int b < 2 ^ bits a / of_int b"
    using ua b by (simp add: divide_strict_right_mono)
  also have "\<dots> = 2 * 2 ^ bits a / (2 * of_int b)" by simp
  also have "\<dots> \<le> 2 * 2 ^ bits a / 2 ^ bits b"
    using lb by (intro divide_left_mono) (simp_all add: b)
  also have "\<dots> = pow2 (d + 1)"
    unfolding d_def by (simp add: pow2_diff pow2_add pow2_nat) (simp add: pow2_def)
  finally have u: "y < pow2 (d + 1)" unfolding y .
  show ?thesis
  proof (cases "pow2 d \<le> y")
    case True
    then show ?thesis using u by (simp add: e)
  next
    case False
    then show ?thesis by (simp add: e)
  qed
qed

lemma roundTiesToEven_of_int [simp]: "roundTiesToEven (of_int j) = j"
  by (simp add: roundTiesToEven_def)

lemma roundTiesToEven_mono_ge:
  assumes "of_int j \<le> m"
  shows "j \<le> roundTiesToEven m"
proof -
  have "j \<le> \<lfloor>m\<rfloor>" using assms by (simp add: le_floor_iff)
  then show ?thesis by (simp add: roundTiesToEven_def Let_def)
qed

lemma fl_int_exact:
  assumes "0 < i" and "i \<le> 2 ^ 53"
  shows "fl (of_int i) = of_int i"
proof -
  define y :: rat where "y = of_int i"
  have y: "0 < y" "y \<le> 2 ^ 53" using assms by (simp_all add: y_def)
  define e where "e = exponent y"
  have "pow2 e \<le> y" unfolding e_def by (rule exponent_lower) (rule y)
  then have "pow2 e \<le> pow2 53" using y(2) by (simp add: pow2_def)
  then have e53: "e \<le> 53" using pow2_strict_mono[of 53 e] by (cases "e \<le> 53") auto
  define j where "j = nat (53 - e)"
  have q: "pow2 (e - 52) = 2 / 2 ^ j"
  proof -
    have "e - 52 = 1 - int j" using e53 by (simp add: j_def)
    then show ?thesis by (simp add: pow2_diff pow2_nat) (simp add: pow2_def)
  qed
  show ?thesis
  proof (cases "j = 0")
    case True
    then have "e = 53" using e53 by (simp add: j_def)
    then have "2 ^ 53 \<le> y" using \<open>pow2 e \<le> y\<close> by (simp add: pow2_def)
    then have "y = 2 ^ 53" using y(2) by simp
    then have i: "i = 2 ^ 53" unfolding y_def by (metis of_int_eq_iff of_int_numeral of_int_power)
    show ?thesis unfolding i by code_simp
  next
    case False
    then obtain j' where j': "j = Suc j'" by (cases j) auto
    have "y / pow2 (e - 52) = of_int (i * 2 ^ j')"
      unfolding q j' y_def by simp
    then have "roundTiesToEven (y / pow2 (e - 52)) = i * 2 ^ j'"
      by (simp only: roundTiesToEven_of_int)
    then have "fl y = of_int (i * 2 ^ j') * pow2 (e - 52)"
      using y(1) by (simp add: fl_def e_def Let_def)
    also have "\<dots> = y" unfolding q j' y_def by simp
    finally show ?thesis unfolding y_def .
  qed
qed

lemma fl_big:
  assumes "2 ^ 53 \<le> y"
  shows "2 ^ 53 \<le> fl y"
proof -
  have y0: "0 < y" using assms by (rule less_le_trans[rotated]) simp
  define e where "e = exponent y"
  have lo: "pow2 e \<le> y" unfolding e_def by (rule exponent_lower) (rule y0)
  have "y < pow2 (e + 1)" unfolding e_def by (rule exponent_upper) (rule y0)
  then have "pow2 53 < pow2 (e + 1)" using assms by (simp add: pow2_def)
  then have e53: "53 \<le> e" using pow2_mono[of "e + 1" 53] by (cases "53 \<le> e") auto
  define q where "q = pow2 (e - 52)"
  have q: "0 < q" by (simp add: q_def)
  have "pow2 e = 2 ^ 52 * q" unfolding q_def by (simp add: pow2_diff) (simp add: pow2_def)
  then have "of_int (2 ^ 52) \<le> y / q" using lo q by (simp add: le_divide_eq)
  then have "2 ^ 52 \<le> roundTiesToEven (y / q)" by (rule roundTiesToEven_mono_ge)
  then have "(of_int (2 ^ 52) :: rat) \<le> of_int (roundTiesToEven (y / q))"
    by (simp only: of_int_le_iff)
  then have r: "2 ^ 52 * q \<le> of_int (roundTiesToEven (y / q)) * q"
    using q by simp
  have f: "fl y = of_int (roundTiesToEven (y / q)) * q"
    using y0 by (simp add: fl_def e_def q_def Let_def)
  have "(2::rat) ^ 53 = pow2 53" by (simp add: pow2_def)
  also have "\<dots> \<le> pow2 e" using e53 by (rule pow2_mono)
  also have "\<dots> = 2 ^ 52 * q" by (rule \<open>pow2 e = 2 ^ 52 * q\<close>)
  also have "\<dots> \<le> of_int (roundTiesToEven (y / q)) * q" by (rule r)
  also have "\<dots> = fl y" by (rule f[symmetric])
  finally show ?thesis .
qed

lemma fl_eq_small:
  assumes "fl (of_int m) = of_int X" and "0 < X" and "X < 2 ^ 53"
  shows "m = X"
proof -
  have mpos: "0 < m"
  proof (rule ccontr)
    assume "\<not> 0 < m"
    then have "(of_int m :: rat) \<le> 0" by simp
    then have "fl (of_int m) \<le> 0" using fl_sign(1)[of "of_int m"] by linarith
    then show False using assms(1,2) by simp
  qed
  show ?thesis
  proof (cases "m \<le> 2 ^ 53")
    case True
    then have "fl (of_int m) = of_int m" using mpos by (intro fl_int_exact)
    then show ?thesis using assms(1) by simp
  next
    case False
    then have "(2::rat) ^ 53 \<le> of_int m" by (metis less_imp_le not_le of_int_le_iff of_int_numeral of_int_power)
    then have "2 ^ 53 \<le> fl (of_int m)" by (rule fl_big)
    then have "(2::rat) ^ 53 \<le> of_int X" using assms(1) by simp
    moreover have "(of_int X :: rat) < 2 ^ 53" using assms(3) by (metis of_int_less_iff of_int_numeral of_int_power)
    ultimately show ?thesis by simp
  qed
qed

lemma fl_examples:
  "fl (1 / 10) = 3602879701896397 / 36028797018963968"
  "fl (2 ^ 53 + 1) = 2 ^ 53" "fl (2 ^ 53 + 3) = 2 ^ 53 + 4"
  "fsub (2 ^ 53) (1 / 2) = 2 ^ 53"
  "fadd (3602879701896397 / 36028797018963968) (3602879701896397 / 18014398509481984) =
     5404319552844596 / 18014398509481984"
  by code_simp+

lemma fsub_examples:
  "fsub 15 10 = 5" "fsub 13 (21 / 2) = 5 / 2" "fsub (fadd 5 1) 2 = 4" "fsub (fadd 5 1) 3 = 3"
  "fsub (fadd 5 1) 4 = 2"
  "fsub (2476979795053773 / 2251799813685248) (3602879701896397 / 36028797018963968) = 1"
  by code_simp+

section \<open>Decimal digits, toFixed and the trimming of zeros\<close>

lemma digits_small: "n < 10 \<Longrightarrow> digits n = [digit_char n]"
  by (simp add: digits.simps)

lemma digits_step: "10 \<le> n \<Longrightarrow> digits n = digits (n div 10) @ [digit_char (n mod 10)]"
  by (subst digits.simps) simp

lemma digits_nonempty [simp]: "digits n \<noteq> []"
  by (subst digits.simps) simp

lemma digit_char_values:
  "d < 10 \<Longrightarrow> digit_char d \<in> set ''0123456789''"
  unfolding digit_char_def by (rule nth_mem) simp

lemma digit_char_not_point [simp]:
  "d < 10 \<Longrightarrow> digit_char d \<noteq> CHR ''.''" "d < 10 \<Longrightarrow> CHR ''.'' \<noteq> digit_char d"
  using digit_char_values[of d] by auto

lemma digit_char_0 [simp]: "digit_char 0 = CHR ''0''"
  by (simp add: digit_char_def)

lemma digit_char_zero_iff: "d < 10 \<Longrightarrow> digit_char d = CHR ''0'' \<longleftrightarrow> d = 0"
proof -
  assume "d < 10"
  then have "d \<in> {0, 1, 2, 3, 4, 5, 6, 7, 8, 9}" by auto
  then show ?thesis by (auto simp: digit_char_def)
qed

lemma digits_no_point [simp]: "CHR ''.'' \<notin> set (digits n)"
proof (induction n rule: digits.induct)
  case (1 n)
  show ?case
  proof (cases "n < 10")
    case True
    then show ?thesis by (simp add: digits_small)
  next
    case False
    then show ?thesis using 1 by (simp add: digits_step)
  qed
qed

lemma of_char_digit_char: "d < 10 \<Longrightarrow> of_char (digit_char d) - 48 = d"
proof -
  assume "d < 10"
  then have "d \<in> {0, 1, 2, 3, 4, 5, 6, 7, 8, 9}" by auto
  then show ?thesis by (auto simp: digit_char_def)
qed

lemma digits_value_digits: "digits_value (digits n) = n"
proof (induction n rule: digits.induct)
  case (1 n)
  show ?case
  proof (cases "n < 10")
    case True
    then show ?thesis by (simp add: digits_small digits_value_def of_char_digit_char)
  next
    case False
    then have "digits_value (digits (n div 10)) = n div 10" using 1 by simp
    with False show ?thesis
      by (simp add: digits_step digits_value_def of_char_digit_char)
  qed
qed

lemma toFixed_below:
  assumes "\<bar>x\<bar> < 10 ^ 21"
  shows "toFixed f x =
     (if x < 0 then ''-'' else '''') @ fixed_point f (nat \<lfloor>\<bar>x\<bar> * 10 ^ f + 1 / 2\<rfloor>)"
proof -
  have ax: "(if x < 0 then - x else x) = \<bar>x\<bar>" by simp
  have "\<not> 10 ^ 21 \<le> \<bar>x\<bar>" using assms by simp
  then show ?thesis
    unfolding toFixed_def ax Let_def by (simp only: if_False)
qed

lemma div_100: "(n::nat) div 10 div 10 = n div 100"
proof -
  have "n div 100 = n div (10 * 10)" by simp
  also have "\<dots> = n div 10 div 10" by (rule div_mult2_eq)
  finally show ?thesis by simp
qed

lemma digits_two_steps:
  assumes "100 \<le> n"
  shows "digits n = digits (n div 100) @ [digit_char (n div 10 mod 10), digit_char (n mod 10)]"
proof -
  have a: "digits n = digits (n div 10) @ [digit_char (n mod 10)]"
    by (rule digits_step) (use assms in linarith)
  have "10 \<le> n div 10" using assms by linarith
  then have b: "digits (n div 10) = digits (n div 10 div 10) @ [digit_char (n div 10 mod 10)]"
    by (rule digits_step)
  show ?thesis
    by (simp only: a b div_100 append_assoc append_Cons append_Nil)
qed

lemma fixed_point_2:
  "fixed_point 2 n =
     digits (n div 100) @ ''.'' @ [digit_char (n div 10 mod 10), digit_char (n mod 10)]"
proof -
  consider "n < 10" | "10 \<le> n" "n < 100" | "100 \<le> n" by linarith
  then show ?thesis
  proof cases
    case 1
    then show ?thesis by (simp add: fixed_point_def digits_small Let_def)
  next
    case 2
    then have "digits n = [digit_char (n div 10), digit_char (n mod 10)]"
      by (simp add: digits_step digits_small)
    with 2 show ?thesis by (simp add: fixed_point_def Let_def digits_small)
  next
    case 3
    have dn: "digits n =
        digits (n div 100) @ [digit_char (n div 10 mod 10), digit_char (n mod 10)]"
      using 3 by (rule digits_two_steps)
    have "length (digits (n div 100)) \<ge> 1"
      by (cases "digits (n div 100)") simp_all
    with dn show ?thesis by (simp add: fixed_point_def Let_def)
  qed
qed
lemma all_zeros_point: "CHR ''.'' \<in> set s \<Longrightarrow> \<not> all_zeros s"
  by (auto simp: all_zeros_def list_all_iff)

lemma strip_zeros_prefix:
  "CHR ''.'' \<notin> set pre \<Longrightarrow> CHR ''.'' \<in> set suf \<Longrightarrow>
   strip_zeros (pre @ suf) = pre @ strip_zeros suf"
proof (induction pre)
  case Nil
  then show ?case by simp
next
  case (Cons c pre)
  then have "\<not> zeros_tail (c # pre @ suf)"
    by (auto simp: zeros_tail_def all_zeros_point)
  with Cons show ?case by simp
qed

lemma strip_zeros_decimals:
  "a \<noteq> CHR ''.'' \<Longrightarrow> b \<noteq> CHR ''.'' \<Longrightarrow>
   strip_zeros [CHR ''.'', a, b] =
     (if a = CHR ''0'' \<and> b = CHR ''0'' then ''''
      else if b = CHR ''0'' then [CHR ''.'', a]
      else [CHR ''.'', a, b])"
  by (auto simp: zeros_tail_def all_zeros_def)

lemma strip_zeros_toFixed_2:
  assumes "\<bar>x\<bar> < 10 ^ 21"
  shows "strip_zeros (toFixed 2 x) =
     (if x < 0 then ''-'' else '''') @
     (let n = nat \<lfloor>\<bar>x\<bar> * 100 + 1 / 2\<rfloor>; a = n div 10 mod 10; b = n mod 10
      in digits (n div 100) @
         (if a = 0 \<and> b = 0 then ''''
          else if b = 0 then ''.'' @ [digit_char a]
          else ''.'' @ [digit_char a, digit_char b]))"
proof -
  define n where "n = nat \<lfloor>\<bar>x\<bar> * 100 + 1 / 2\<rfloor>"
  define pre where "pre = (if x < 0 then ''-'' else '''') @ digits (n div 100)"
  define a where "a = digit_char (n div 10 mod 10)"
  define b where "b = digit_char (n mod 10)"
  have np: "CHR ''.'' \<notin> set pre" by (simp add: pre_def)
  have ab: "a \<noteq> CHR ''.''" "b \<noteq> CHR ''.''" by (simp_all add: a_def b_def)
  have z: "a = CHR ''0'' \<longleftrightarrow> n div 10 mod 10 = 0" "b = CHR ''0'' \<longleftrightarrow> n mod 10 = 0"
    by (simp_all add: a_def b_def digit_char_zero_iff)
  have n100: "(100::rat) = 10 ^ 2" by simp
  have "toFixed 2 x = pre @ [CHR ''.'', a, b]"
    unfolding toFixed_below[OF assms] fixed_point_2 pre_def n_def a_def b_def n100 by simp
  then have "strip_zeros (toFixed 2 x) = pre @ strip_zeros [CHR ''.'', a, b]"
    using np strip_zeros_prefix[of pre "[CHR ''.'', a, b]"] by (simp del: strip_zeros.simps)
  also have "strip_zeros [CHR ''.'', a, b] =
      (if a = CHR ''0'' \<and> b = CHR ''0'' then ''''
       else if b = CHR ''0'' then [CHR ''.'', a]
       else [CHR ''.'', a, b])"
    using ab by (rule strip_zeros_decimals)
  finally show ?thesis
    unfolding z by (simp add: pre_def n_def a_def b_def Let_def)
qed

text \<open>
  Below \<open>2^53\<close> an integer prints as all its decimal digits: the only integer that reads
  back as the same double is the integer itself.
\<close>

lemma shortest_at_reads_back:
  "shortest_at X n0 k = Some m \<Longrightarrow> fl (of_int m) = of_int X"
  by (auto simp: shortest_at_def Let_def split: if_splits)

lemma shortest_from_small:
  assumes "0 < X" and "X < 2 ^ 53"
  shows "fst (shortest_from X n0 ks) = X"
proof (induction ks)
  case Nil
  then show ?case by simp
next
  case (Cons k ks)
  show ?case
  proof (cases "shortest_at X n0 k")
    case None
    then show ?thesis using Cons by simp
  next
    case (Some m)
    then have "fl (of_int m) = of_int X" by (rule shortest_at_reads_back)
    then have "m = X" using assms by (rule fl_eq_small)
    then show ?thesis using Some by simp
  qed
qed

lemma digits_int_digits: "0 \<le> X \<Longrightarrow> digits_int X = digits (nat X)"
proof (induction X rule: digits_int.induct)
  case (1 k)
  show ?case
  proof (cases "k < 10")
    case True
    then have "nat k < 10" by simp
    then show ?thesis using True by (simp add: digits_int.simps[of k] digits_small)
  next
    case False
    then have ih: "digits_int (k div 10) = digits (nat (k div 10))" using 1 by simp
    have n: "nat (k div 10) = nat k div 10" "nat (k mod 10) = nat k mod 10"
      using 1(2) by (simp_all add: nat_div_distrib nat_mod_distrib)
    have "10 \<le> nat k" using False by simp
    then have "digits (nat k) = digits (nat k div 10) @ [digit_char (nat k mod 10)]"
      by (rule digits_step)
    then show ?thesis using False ih n by (simp add: digits_int.simps[of k])
  qed
qed

lemma length_digits_le: "n < 10 ^ Suc j \<Longrightarrow> length (digits n) \<le> Suc j"
proof (induction j arbitrary: n)
  case 0
  then show ?case by (simp add: digits_small)
next
  case (Suc j)
  show ?case
  proof (cases "n < 10")
    case True
    then show ?thesis by (simp add: digits_small)
  next
    case False
    have "n div 10 < 10 ^ Suc j" using Suc.prems by (simp add: less_mult_imp_div_less)
    then have "length (digits (n div 10)) \<le> Suc j" by (rule Suc.IH)
    then show ?thesis using False by (simp add: digits_step)
  qed
qed

lemma unsigned_toString_small:
  assumes "isInteger x" and "0 \<le> x" and "x < 2 ^ 53"
  shows "unsigned_toString x = digits (nat \<lfloor>x\<rfloor>)"
proof (cases "x = 0")
  case True
  then show ?thesis by (simp add: unsigned_toString_def digits_small digit_char_def)
next
  case False
  define X where "X = \<lfloor>x\<rfloor>"
  have "of_int \<lfloor>x\<rfloor> = x" using assms(1) unfolding isInteger_def .
  then have x: "x = of_int X" unfolding X_def by (rule sym)
  have X0: "0 < X" using assms(2) False unfolding x by simp
  have "(of_int X :: rat) < of_int (2 ^ 53)" using assms(3) unfolding x by simp
  then have X53: "X < 2 ^ 53" by (simp only: of_int_less_iff)
  obtain m k where mk: "shortest X = (m, k)" by (cases "shortest X")
  have "fst (shortest X) = X"
    unfolding shortest_def Let_def using X0 X53 by (rule shortest_from_small)
  then have m: "m = X" using mk by simp
  have d: "digits_int X = digits (nat X)" using X0 by (simp add: digits_int_digits)
  have "nat X < 10 ^ Suc 20" using X53 by simp
  then have "length (digits (nat X)) \<le> Suc 20" by (rule length_digits_le)
  then have len: "length (digits_int X) \<le> 21" by (simp add: d)
  show ?thesis
    using False len by (simp add: unsigned_toString_def X_def[symmetric] mk m d Let_def)
qed

lemma isInteger_minus: "isInteger x \<Longrightarrow> isInteger (- x)"
proof -
  assume "isInteger x"
  then have "of_int \<lfloor>x\<rfloor> = x" unfolding isInteger_def .
  then have x: "x = of_int \<lfloor>x\<rfloor>" by (rule sym)
  have "\<lfloor>- x\<rfloor> = - \<lfloor>x\<rfloor>" by (subst x) (simp flip: of_int_minus)
  then show ?thesis unfolding isInteger_def using x by simp
qed

lemma Number_toString_small:
  assumes "isInteger x" and "\<bar>x\<bar> < 2 ^ 53"
  shows "Number_toString x =
           (if x < 0 then ''-'' @ digits (nat \<lfloor>- x\<rfloor>) else digits (nat \<lfloor>x\<rfloor>))"
proof (cases "x < 0")
  case True
  have "unsigned_toString (- x) = digits (nat \<lfloor>- x\<rfloor>)"
    using assms True by (intro unsigned_toString_small isInteger_minus) simp_all
  then show ?thesis using True by (simp add: Number_toString_def)
next
  case False
  have "unsigned_toString x = digits (nat \<lfloor>x\<rfloor>)"
    using assms False by (intro unsigned_toString_small) simp_all
  then show ?thesis using False by (simp add: Number_toString_def)
qed

lemma Number_toString_integer:
  assumes "isInteger x" and "\<bar>x\<bar> < 2 ^ 53"
  shows "Number_toString x = (if x < 0 then ''-'' else '''') @ digits (nat \<bar>\<lfloor>x\<rfloor>\<bar>)"
proof -
  define i where "i = \<lfloor>x\<rfloor>"
  have "of_int \<lfloor>x\<rfloor> = x" using assms(1) unfolding isInteger_def .
  then have x: "x = of_int i" unfolding i_def by (rule sym)
  have "\<lfloor>- x\<rfloor> = - i" unfolding x by (simp flip: of_int_minus)
  moreover have "\<lfloor>x\<rfloor> = i" by (simp add: i_def)
  moreover have "x < 0 \<longleftrightarrow> i < 0" unfolding x by simp
  ultimately show ?thesis
    unfolding Number_toString_small[OF assms] by (simp add: abs_if)
qed

lemma Number_toString_examples:
  "Number_toString (2 ^ 53) = ''9007199254740992''"
  "Number_toString (2 ^ 60) = ''1152921504606847000''"
  "Number_toString (- (2 ^ 64)) = ''-18446744073709552000''"
  "Number_toString (10 ^ 21) = ''1e+21''"
  "Number_toString (15 * 10 ^ 20) = ''1.5e+21''"
  by code_simp+

lemma below_2_53:
  fixes x :: rat
  shows "\<bar>x\<bar> < 2 ^ 53 \<Longrightarrow> \<bar>x\<bar> < 10 ^ 21"
  by simp


lemma tick_spec:
  assumes "\<bar>d\<bar> < 2 ^ 53"
  shows "(if isInteger d then Number_toString d else strip_zeros (toFixed 2 d)) = spec_tickText d"
proof (cases "isInteger d")
  case True
  then show ?thesis using assms by (simp add: spec_tickText_def Number_toString_integer)
next
  case False
  then show ?thesis
    unfolding spec_tickText_def strip_zeros_toFixed_2[OF below_2_53[OF assms]]
    by (simp add: Let_def)
qed





section \<open>Properties of calculateTrend\<close>

lemma calculateTrend_present:
  assumes "2 \<le> length h" "previousValue h k = Num p" "get_prop l k = Num c"
  shows "calculateTrend h l k opts =
     \<lparr>trend_text = deltaText (fsub c p),
      trend_arrow = (if c - p = 0 then SvgFlat else if c - p > 0 then SvgUpRight else SvgDownRight),
      trend_color =
        (if c - p = 0 \<or> neutral opts then ''var(--dash-trend-flat)''
         else if (if inverse_opt opts then c - p < 0 else c - p > 0) then ''var(--dash-trend-up)''
         else ''var(--dash-trend-down)'')\<rparr>"
  using assms by (simp add: calculateTrend_def trendBetween_def Let_def)

lemma calculateTrend_absent:
  assumes "length h < 2 \<or> is_nullish (previousValue h k) \<or> is_nullish (get_prop l k)"
  shows "calculateTrend h l k opts = noTrend"
  using assms by (auto simp: calculateTrend_def trendBetween_def split: jsval.splits)

lemma calculateTrend_cases:
  obtains "calculateTrend h l k opts = noTrend"
    "length h < 2 \<or> is_nullish (previousValue h k) \<or> is_nullish (get_prop l k)"
  | p c where "2 \<le> length h" "previousValue h k = Num p" "get_prop l k = Num c"
proof (cases "length h < 2 \<or> is_nullish (previousValue h k) \<or> is_nullish (get_prop l k)")
  case True
  then show ?thesis using calculateTrend_absent that(1) by blast
next
  case False
  then obtain p c where "previousValue h k = Num p" "get_prop l k = Num c"
    by (cases "previousValue h k"; cases "get_prop l k") auto
  with False show ?thesis using that(2) by auto
qed

lemma calculateTrend_options:
  "inverse_opt o1 = inverse_opt o2 \<Longrightarrow> neutral o1 = neutral o2 \<Longrightarrow>
   calculateTrend h l k o1 = calculateTrend h l k o2"
  by (auto simp: calculateTrend_def trendBetween_def Let_def split: jsval.splits)

lemma deltaText_5: "deltaText 5 = ''+5''"
  by (simp add: deltaText_def isInteger_def Number_toString_small digits.simps digit_char_def)

lemma deltaText_0: "deltaText 0 = ''0''"
  by (simp add: deltaText_def isInteger_def Number_toString_small digits.simps digit_char_def)

text \<open>
  C3: \<open>calculateTrend\<close> returns the "no trend" descriptor exactly when the history has
  fewer than two entries, or the metric at \<open>history[length - 2]\<close> is null or missing, or
  \<open>latest[key]\<close> is null or missing. A comparison value of 0 is present: with it the
  result is a normal trend whose text is the rendered delta, and the delta of two doubles
  one of which is 0 is their exact difference.
\<close>

theorem calculateTrend_noTrend_iff:
  "(calculateTrend h l k opts = noTrend \<longleftrightarrow>
      length h < 2 \<or> is_nullish (previousValue h k) \<or> is_nullish (get_prop l k)) \<and>
   (2 \<le> length h \<and> previousValue h k = Num p \<and> get_prop l k = Num c \<and> (p = 0 \<or> c = 0) \<longrightarrow>
      calculateTrend h l k opts \<noteq> noTrend \<and>
      trend_arrow (calculateTrend h l k opts) \<noteq> NoArrow \<and>
      trend_text (calculateTrend h l k opts) = deltaText (fsub c p) \<and>
      (is_double p \<and> is_double c \<longrightarrow>
         trend_text (calculateTrend h l k opts) = deltaText (c - p)))"
proof (intro conjI impI)
  show "calculateTrend h l k opts = noTrend \<longleftrightarrow>
      length h < 2 \<or> is_nullish (previousValue h k) \<or> is_nullish (get_prop l k)"
    by (auto simp: calculateTrend_def trendBetween_def noTrend_def Let_def split: jsval.splits)
next
  assume a: "2 \<le> length h \<and> previousValue h k = Num p \<and> get_prop l k = Num c \<and> (p = 0 \<or> c = 0)"
  then show "calculateTrend h l k opts \<noteq> noTrend"
    by (auto simp: calculateTrend_present noTrend_def)
  from a show "trend_arrow (calculateTrend h l k opts) \<noteq> NoArrow"
    by (auto simp: calculateTrend_present)
  from a show t: "trend_text (calculateTrend h l k opts) = deltaText (fsub c p)"
    by (simp add: calculateTrend_present)
  assume "is_double p \<and> is_double c"
  then have "fl p = p" "fl c = c" by (simp_all add: is_double_def)
  with a have "fsub c p = c - p"
    by (auto simp: fsub_0_right fsub_0_left)
  with t show "trend_text (calculateTrend h l k opts) = deltaText (c - p)" by simp
qed

theorem calculateTrend_noTrend_iff_witness:
  "calculateTrend
     [\<lparr>date = 0, metrics = [''x'' \<mapsto> Num 0]\<rparr>, \<lparr>date = 1, metrics = [''x'' \<mapsto> Num 3]\<rparr>]
     [''x'' \<mapsto> Num 0] ''x'' \<lparr>inverse_opt = False, neutral = False\<rparr> \<noteq> noTrend \<and>
   trend_text (calculateTrend
     [\<lparr>date = 0, metrics = [''x'' \<mapsto> Num 0]\<rparr>, \<lparr>date = 1, metrics = [''x'' \<mapsto> Num 3]\<rparr>]
     [''x'' \<mapsto> Num 0] ''x'' \<lparr>inverse_opt = False, neutral = False\<rparr>) = ''0''"
  using calculateTrend_noTrend_iff
    [where h = "[\<lparr>date = 0, metrics = [''x'' \<mapsto> Num 0]\<rparr>, \<lparr>date = 1, metrics = [''x'' \<mapsto> Num 3]\<rparr>]"
       and l = "[''x'' \<mapsto> Num 0]" and k = "''x''"
       and opts = "\<lparr>inverse_opt = False, neutral = False\<rparr>" and p = 0 and c = 0]
  by (simp add: previousValue_def get_prop_def deltaText_0 fsub_def is_double_def)

text \<open>
  C4: for a non-zero delta, the call with \<open>inverse = true\<close> and the call with
  \<open>inverse = false\<close> (\<open>neutral\<close> at its default) return the same arrow and the same text
  and opposite colours: up and down for a rise, down and up for a fall. On the history
  \<open>[{x: 10}, {x: 15}]\<close> with latest \<open>{x: 15}\<close> the default call gives \<open>"+5"\<close>, up arrow,
  up colour, and the inverse call gives \<open>"+5"\<close>, up arrow, down colour.
\<close>

theorem calculateTrend_inverse_flips_color:
  "(2 \<le> length h \<and> previousValue h k = Num p \<and> get_prop l k = Num c \<and> c - p \<noteq> 0 \<longrightarrow>
      (let t0 = calculateTrend h l k \<lparr>inverse_opt = False, neutral = False\<rparr>;
           t1 = calculateTrend h l k \<lparr>inverse_opt = True, neutral = False\<rparr>
       in trend_arrow t1 = trend_arrow t0 \<and> trend_text t1 = trend_text t0 \<and>
          (if c - p > 0
           then trend_color t0 = ''var(--dash-trend-up)'' \<and>
                trend_color t1 = ''var(--dash-trend-down)''
           else trend_color t0 = ''var(--dash-trend-down)'' \<and>
                trend_color t1 = ''var(--dash-trend-up)'')))
   \<and> calculateTrend
         [\<lparr>date = d1, metrics = [''x'' \<mapsto> Num 10]\<rparr>, \<lparr>date = d2, metrics = [''x'' \<mapsto> Num 15]\<rparr>]
         [''x'' \<mapsto> Num 15] ''x'' \<lparr>inverse_opt = False, neutral = False\<rparr>
       = \<lparr>trend_text = ''+5'', trend_arrow = SvgUpRight, trend_color = ''var(--dash-trend-up)''\<rparr>
   \<and> calculateTrend
         [\<lparr>date = d1, metrics = [''x'' \<mapsto> Num 10]\<rparr>, \<lparr>date = d2, metrics = [''x'' \<mapsto> Num 15]\<rparr>]
         [''x'' \<mapsto> Num 15] ''x'' \<lparr>inverse_opt = True, neutral = False\<rparr>
       = \<lparr>trend_text = ''+5'', trend_arrow = SvgUpRight, trend_color = ''var(--dash-trend-down)''\<rparr>"
proof (intro conjI impI)
  assume "2 \<le> length h \<and> previousValue h k = Num p \<and> get_prop l k = Num c \<and> c - p \<noteq> 0"
  then show "let t0 = calculateTrend h l k \<lparr>inverse_opt = False, neutral = False\<rparr>;
           t1 = calculateTrend h l k \<lparr>inverse_opt = True, neutral = False\<rparr>
       in trend_arrow t1 = trend_arrow t0 \<and> trend_text t1 = trend_text t0 \<and>
          (if c - p > 0
           then trend_color t0 = ''var(--dash-trend-up)'' \<and>
                trend_color t1 = ''var(--dash-trend-down)''
           else trend_color t0 = ''var(--dash-trend-down)'' \<and>
                trend_color t1 = ''var(--dash-trend-up)'')"
    by (simp add: calculateTrend_present Let_def)
next
  show "calculateTrend
         [\<lparr>date = d1, metrics = [''x'' \<mapsto> Num 10]\<rparr>, \<lparr>date = d2, metrics = [''x'' \<mapsto> Num 15]\<rparr>]
         [''x'' \<mapsto> Num 15] ''x'' \<lparr>inverse_opt = False, neutral = False\<rparr>
       = \<lparr>trend_text = ''+5'', trend_arrow = SvgUpRight, trend_color = ''var(--dash-trend-up)''\<rparr>"
    by (simp add: calculateTrend_def trendBetween_def previousValue_def get_prop_def Let_def
          deltaText_5 fsub_examples)
next
  show "calculateTrend
         [\<lparr>date = d1, metrics = [''x'' \<mapsto> Num 10]\<rparr>, \<lparr>date = d2, metrics = [''x'' \<mapsto> Num 15]\<rparr>]
         [''x'' \<mapsto> Num 15] ''x'' \<lparr>inverse_opt = True, neutral = False\<rparr>
       = \<lparr>trend_text = ''+5'', trend_arrow = SvgUpRight, trend_color = ''var(--dash-trend-down)''\<rparr>"
    by (simp add: calculateTrend_def trendBetween_def previousValue_def get_prop_def Let_def
          deltaText_5 fsub_examples)
qed

theorem calculateTrend_inverse_flips_color_witness:
  "trend_color (calculateTrend
     [\<lparr>date = 0, metrics = [''bugs'' \<mapsto> Num 7]\<rparr>, \<lparr>date = 1, metrics = [''bugs'' \<mapsto> Num 4]\<rparr>]
     [''bugs'' \<mapsto> Num 4] ''bugs'' \<lparr>inverse_opt = False, neutral = False\<rparr>) = ''var(--dash-trend-down)'' \<and>
   trend_color (calculateTrend
     [\<lparr>date = 0, metrics = [''bugs'' \<mapsto> Num 7]\<rparr>, \<lparr>date = 1, metrics = [''bugs'' \<mapsto> Num 4]\<rparr>]
     [''bugs'' \<mapsto> Num 4] ''bugs'' \<lparr>inverse_opt = True, neutral = False\<rparr>) = ''var(--dash-trend-up)'' \<and>
   trend_arrow (calculateTrend
     [\<lparr>date = 0, metrics = [''bugs'' \<mapsto> Num 7]\<rparr>, \<lparr>date = 1, metrics = [''bugs'' \<mapsto> Num 4]\<rparr>]
     [''bugs'' \<mapsto> Num 4] ''bugs'' \<lparr>inverse_opt = True, neutral = False\<rparr>) =
   trend_arrow (calculateTrend
     [\<lparr>date = 0, metrics = [''bugs'' \<mapsto> Num 7]\<rparr>, \<lparr>date = 1, metrics = [''bugs'' \<mapsto> Num 4]\<rparr>]
     [''bugs'' \<mapsto> Num 4] ''bugs'' \<lparr>inverse_opt = False, neutral = False\<rparr>)"
  using calculateTrend_inverse_flips_color
    [where h = "[\<lparr>date = 0, metrics = [''bugs'' \<mapsto> Num 7]\<rparr>, \<lparr>date = 1, metrics = [''bugs'' \<mapsto> Num 4]\<rparr>]"
       and l = "[''bugs'' \<mapsto> Num 4]" and k = "''bugs''" and p = 7 and c = 4]
  by (simp add: previousValue_def get_prop_def Let_def)

text \<open>
  C6: with \<open>neutral = true\<close> the colour is the flat one on every input, whatever the sign
  of the delta and whatever \<open>inverse\<close> is, and the arrow still follows the sign of the
  delta: up for a rise, down for a fall.
\<close>

theorem calculateTrend_neutral_flat:
  "neutral opts \<Longrightarrow>
     trend_color (calculateTrend h l k opts) = ''var(--dash-trend-flat)'' \<and>
     (2 \<le> length h \<and> previousValue h k = Num p \<and> get_prop l k = Num c \<longrightarrow>
        trend_arrow (calculateTrend h l k opts) =
          (if c - p > 0 then SvgUpRight else if c - p < 0 then SvgDownRight else SvgFlat))"
  by (cases rule: calculateTrend_cases[of h l k opts])
     (auto simp: noTrend_def calculateTrend_present)

theorem calculateTrend_neutral_flat_witness:
  "trend_color (calculateTrend
     [\<lparr>date = 0, metrics = [''x'' \<mapsto> Num 10]\<rparr>, \<lparr>date = 1, metrics = [''x'' \<mapsto> Num 15]\<rparr>]
     [''x'' \<mapsto> Num 15] ''x'' \<lparr>inverse_opt = True, neutral = True\<rparr>) = ''var(--dash-trend-flat)'' \<and>
   trend_arrow (calculateTrend
     [\<lparr>date = 0, metrics = [''x'' \<mapsto> Num 10]\<rparr>, \<lparr>date = 1, metrics = [''x'' \<mapsto> Num 15]\<rparr>]
     [''x'' \<mapsto> Num 15] ''x'' \<lparr>inverse_opt = True, neutral = True\<rparr>) = SvgUpRight"
  using calculateTrend_neutral_flat
    [where opts = "\<lparr>inverse_opt = True, neutral = True\<rparr>"
       and h = "[\<lparr>date = 0, metrics = [''x'' \<mapsto> Num 10]\<rparr>, \<lparr>date = 1, metrics = [''x'' \<mapsto> Num 15]\<rparr>]"
       and l = "[''x'' \<mapsto> Num 15]" and k = "''x''" and p = 10 and c = 15]
  by (simp add: previousValue_def get_prop_def)




section \<open>Properties of buildTrendChart\<close>

lemma chartData_Nil [simp]: "chartData [] k = []"
  by (simp add: chartData_def List.map_filter_simps)

lemma reverseData_on:
  "reverse opts \<Longrightarrow> yDomain opts = Some (lo, hi) \<Longrightarrow>
   reverseData opts cd = map (\<lambda>d. d\<lparr>point_value := fsub (fadd hi lo) (point_value d)\<rparr>) cd"
  by (simp add: reverseData_def)

lemma length_reverseData [simp]: "length (reverseData opts cd) = length cd"
  by (simp add: reverseData_def split: option.splits)

lemma buildTrendChart_Chart:
  assumes "chartData h k \<noteq> []"
  shows "buildTrendChart env h l k opts =
     Chart \<lparr>card_title = title opts,
            card_big = (case valueFormat opts of
                          Some vf \<Rightarrow> vf (get_prop l k)
                        | None \<Rightarrow> formatMetric env (get_prop l k) (suffix opts)),
            card_trendArrowHtml = makeArrowNode (calculateTrend h l k opts),
            card_deltaNode =
              (if chartDeltaText h opts (calculateTrend h l k opts) \<noteq> ''''
               then TextSpan (chartDeltaText h opts (calculateTrend h l k opts)) else EmptyNode),
            card_chart =
              \<lparr>plot_x = xAxis env (reverseData opts (chartData h k)),
               plot_y = yAxis_final opts
                  (yAxis_initial opts (list_all (\<lambda>d. isInteger (point_value d)) (chartData h k))),
               plot_marks = marks env opts (reverseData opts (chartData h k))\<rparr>\<rparr>"
  using assms by (simp add: buildTrendChart_def Let_def makeArrowNode_def)

lemma en_US_small:
  "en_US_number 4 = ''4''" "en_US_number 2 = ''2''"
  by code_simp+

text \<open>
  C2, as the code has it: on the empty history \<open>calculateTrend\<close> returns the "no trend"
  descriptor and \<open>buildTrendChart\<close> returns the "no data" card, whether \<open>latest[key]\<close> is
  null or not. The current value is not rendered: the card is returned before the
  headline is built.
\<close>

theorem empty_history_no_data:
  "calculateTrend [] l k opts = noTrend \<and>
   noTrend = \<lparr>trend_text = '''', trend_arrow = NoArrow, trend_color = ''var(--dash-trend-flat)''\<rparr> \<and>
   buildTrendChart env [] l k copts = NoData (title copts)"
  by (simp add: calculateTrend_def trendBetween_def buildTrendChart_def noTrend_def)

text \<open>
  The empty history with \<open>latest = {x: 5}\<close>: the value is there, and the result is still
  the "no data" card.
\<close>

theorem empty_history_latest_present_no_data:
  "\<not> is_nullish (get_prop [''x'' \<mapsto> Num 5] ''x'') \<and>
   buildTrendChart example_env [] [''x'' \<mapsto> Num 5] ''x'' example_options = NoData ''Rating''"
  by (simp add: buildTrendChart_def get_prop_def example_options_def)

text \<open>
  C10: with \<open>reverse = true\<close> and no \<open>yDomain\<close> the result is the result of the same call
  with \<open>reverse = false\<close>: no value is remapped, no tick label is un-reversed, and the
  tooltip formatter is the same.
\<close>

theorem reverse_without_yDomain_ignored:
  "yDomain opts = None \<Longrightarrow>
   buildTrendChart env h l k (opts\<lparr>reverse := True\<rparr>) =
   buildTrendChart env h l k (opts\<lparr>reverse := False\<rparr>)"
proof -
  assume nd: "yDomain opts = None"
  have t: "calculateTrend h l k (opts\<lparr>reverse := True\<rparr>) =
           calculateTrend h l k (opts\<lparr>reverse := False\<rparr>)"
    by (rule calculateTrend_options) simp_all
  have d: "displayValue env (opts\<lparr>reverse := True\<rparr>) = displayValue env (opts\<lparr>reverse := False\<rparr>)"
    using nd by (simp add: displayValue_def fun_eq_iff)
  have tt: "tipTitle env (opts\<lparr>reverse := True\<rparr>) = tipTitle env (opts\<lparr>reverse := False\<rparr>)"
    using d by (simp add: tipTitle_def fun_eq_iff)
  have m: "marks env (opts\<lparr>reverse := True\<rparr>) cd = marks env (opts\<lparr>reverse := False\<rparr>) cd" for cd
    using nd tt by (simp add: marks_def split: list.splits)
  have y0: "yAxis_initial (opts\<lparr>reverse := True\<rparr>) b = yAxis_initial (opts\<lparr>reverse := False\<rparr>) b"
    for b
    by (simp add: yAxis_initial_def split: option.splits)
  have y1: "yAxis_final (opts\<lparr>reverse := True\<rparr>) y = yAxis_final (opts\<lparr>reverse := False\<rparr>) y"
    for y
    using nd by (simp add: yAxis_final_def)
  have r: "reverseData (opts\<lparr>reverse := True\<rparr>) cd = reverseData (opts\<lparr>reverse := False\<rparr>) cd"
    for cd
    using nd by (simp add: reverseData_def)
  have c: "chartDeltaText h (opts\<lparr>reverse := True\<rparr>) tr =
           chartDeltaText h (opts\<lparr>reverse := False\<rparr>) tr" for tr
    by (simp add: chartDeltaText_def)
  show ?thesis
    unfolding buildTrendChart_def t m y0 y1 r c by (simp add: Let_def split: option.splits)
qed

theorem reverse_without_yDomain_ignored_witness:
  "buildTrendChart example_env [\<lparr>date = 0, metrics = [''y'' \<mapsto> Num 3]\<rparr>] [''y'' \<mapsto> Num 3] ''y''
     (example_options\<lparr>reverse := True\<rparr>)
   = buildTrendChart example_env [\<lparr>date = 0, metrics = [''y'' \<mapsto> Num 3]\<rparr>] [''y'' \<mapsto> Num 3] ''y''
     (example_options\<lparr>reverse := False\<rparr>)"
  using reverse_without_yDomain_ignored
    [where opts = example_options and env = example_env
       and h = "[\<lparr>date = 0, metrics = [''y'' \<mapsto> Num 3]\<rparr>]" and l = "[''y'' \<mapsto> Num 3]"
       and k = "''y''"]
  by (simp add: example_options_def)

text \<open>
  C7, as the code has it: when the projected series has exactly one point, the marks are
  a horizontal rule at the point's plotted value and one dot, so no area and no line
  mark. The time axis ends at the point's date and starts at the date that
  \<open>setDate(getDate() - 6)\<close> gives: the local time of the point's date moved back by six
  days, read as a local time. Where the offset of that local time is the offset at the
  point's date (no clock change in between), the start is six days of 86400000 ms
  before the point's date.
\<close>

theorem single_point_marks_and_domain:
  assumes "chartData h k = [pt]"
  shows "\<exists>cc. buildTrendChart env h l k opts = Chart cc \<and>
            plot_marks (card_chart cc) =
              [RuleY (map point_value (reverseData opts [pt])) (color opts),
               Dot (reverseData opts [pt]) (color opts) 3] \<and>
            (\<forall>m \<in> set (plot_marks (card_chart cc)). \<not> is_area_or_line m) \<and>
            x_domain (plot_x (card_chart cc)) =
              Some (UTC env (LocalTime env (point_date pt) - 6 * msPerDay), point_date pt) \<and>
            (localTZA env (LocalTime env (point_date pt) - 6 * msPerDay) False =
               localTZA env (point_date pt) True \<longrightarrow>
             x_domain (plot_x (card_chart cc)) =
               Some (point_date pt - 6 * msPerDay, point_date pt))"
proof -
  obtain q where q: "reverseData opts [pt] = [q]" "point_date q = point_date pt"
    by (cases "yDomain opts"; cases "reverse opts") (auto simp: reverseData_def)
  show ?thesis
    using assms q
    by (simp add: buildTrendChart_Chart marks_def xAxis_def shiftDate_def UTC_def LocalTime_def
          is_area_or_line_def Let_def)
qed

theorem single_point_marks_and_domain_witness:
  "\<exists>cc. buildTrendChart example_env
          [\<lparr>date = 1000000000000, metrics = [''y'' \<mapsto> Num 2]\<rparr>] [''y'' \<mapsto> Num 2] ''y''
          (example_options\<lparr>yDomain := Some (1, 5), reverse := True\<rparr>) = Chart cc \<and>
     plot_marks (card_chart cc) =
       [RuleY [4] ''var(--dash-trend-flat)'',
        Dot [\<lparr>point_date = 1000000000000, point_value = 4\<rparr>] ''var(--dash-trend-flat)'' 3] \<and>
     x_domain (plot_x (card_chart cc)) = Some (999481600000, 1000000000000)"
  using single_point_marks_and_domain
    [where h = "[\<lparr>date = 1000000000000, metrics = [''y'' \<mapsto> Num 2]\<rparr>]" and k = "''y''"
       and pt = "\<lparr>point_date = 1000000000000, point_value = 2\<rparr>"
       and opts = "example_options\<lparr>yDomain := Some (1, 5), reverse := True\<rparr>"
       and env = example_env and l = "[''y'' \<mapsto> Num 2]"]
  by (auto simp: chartData_def List.map_filter_simps get_prop_def example_options_def
        example_env_def reverseData_def msPerDay_def fsub_examples)

text \<open>
  In New York, the single point dated 16 March 2024, 02:30 local time (06:30 UTC,
  1710570600000): six days earlier on the calendar is 10 March, 02:30, a local time that
  the clock change of that night skips. The axis starts at 03:30 local time of 10 March
  (07:30 UTC, 1710055800000), five days and 23 hours before the point's date, and not at
  the instant six days before it (1710052200000).
\<close>

theorem single_point_domain_clock_change:
  "buildTrendChart new_york_env
     [\<lparr>date = 1710570600000, metrics = [''y'' \<mapsto> Num 2]\<rparr>] [''y'' \<mapsto> Num 2] ''y'' example_options =
   Chart
     \<lparr>card_title = ''Rating'', card_big = ''2'', card_trendArrowHtml = EmptyNode,
      card_deltaNode = TextSpan ''No trend'',
      card_chart =
        \<lparr>plot_x = \<lparr>x_domain = Some (1710055800000, 1710570600000)\<rparr>,
         plot_y = \<lparr>y_domain = None, y_tickFormat = TickSpec ''d''\<rparr>,
         plot_marks =
           [RuleY [2] ''var(--dash-trend-flat)'',
            Dot [\<lparr>point_date = 1710570600000, point_value = 2\<rparr>] ''var(--dash-trend-flat)'' 3]\<rparr>\<rparr> \<and>
   1710570600000 - 6 * msPerDay = 1710052200000 \<and>
   1710055800000 - (1710570600000 - 6 * msPerDay) = 3600000"
  by (simp add: buildTrendChart_def chartData_def List.map_filter_simps get_prop_def
        example_options_def new_york_env_def example_env_def reverseData_def yAxis_initial_def
        yAxis_final_def xAxis_def shiftDate_def UTC_def LocalTime_def msPerDay_def marks_def
        calculateTrend_def noTrend_def chartDeltaText_def isInteger_def en_US_small Let_def)

text \<open>
  C1 at two inputs, both with \<open>reverse = true\<close> and \<open>yDomain = [1, 5]\<close>.

  Without \<open>valueFormat\<close>, on the history \<open>[{y: 2}, {y: 3}]\<close>: the points are plotted at 4
  and 3, and the tooltip of the first one reads \<open>"0: 4"\<close> (the date text, then the value):
  the tooltip function is the default formatter applied to the plotted value, where
  formatting the original value gives \<open>"2"\<close>.

  With a \<open>valueFormat\<close> that tells the original value from any other, on the value 1.1
  (the double 2476979795053773 / 2^51): it is plotted at 4.9 (the double
  2758454771764429 / 2^49), and un-reversing 4.9 gives 1.0999999999999996 (the double
  619244948763443 / 2^49), so \<open>valueFormat\<close> does not receive the original value.
\<close>

theorem displayValue_default_not_unreversed:
  "buildTrendChart example_env
     [\<lparr>date = 0, metrics = [''y'' \<mapsto> Num 2]\<rparr>, \<lparr>date = 86400000, metrics = [''y'' \<mapsto> Num 3]\<rparr>]
     [''y'' \<mapsto> Num 3] ''y'' (example_options\<lparr>yDomain := Some (1, 5), reverse := True\<rparr>) =
   Chart
     \<lparr>card_title = ''Rating'', card_big = ''3'',
      card_trendArrowHtml = ArrowSpan ''var(--dash-trend-up)'' SvgUpRight,
      card_deltaNode = TextSpan ''+1 from previous'',
      card_chart =
        \<lparr>plot_x = \<lparr>x_domain = None\<rparr>,
         plot_y = \<lparr>y_domain = Some (1, 5), y_tickFormat = TickSpec ''d''\<rparr>,
         plot_marks =
           [AreaY [\<lparr>point_date = 0, point_value = 4\<rparr>, \<lparr>point_date = 86400000, point_value = 3\<rparr>]
              1 ''var(--dash-trend-flat)'',
            LineY [\<lparr>point_date = 0, point_value = 4\<rparr>, \<lparr>point_date = 86400000, point_value = 3\<rparr>]
              ''var(--dash-trend-flat)'',
            Dot [\<lparr>point_date = 0, point_value = 4\<rparr>, \<lparr>point_date = 86400000, point_value = 3\<rparr>]
              ''var(--dash-trend-flat)'' (5 / 2),
            Tip [\<lparr>point_date = 0, point_value = 4\<rparr>, \<lparr>point_date = 86400000, point_value = 3\<rparr>]
              (tipTitle example_env (example_options\<lparr>yDomain := Some (1, 5), reverse := True\<rparr>))]\<rparr>\<rparr> \<and>
   tipTitle example_env (example_options\<lparr>yDomain := Some (1, 5), reverse := True\<rparr>)
     \<lparr>point_date = 0, point_value = 4\<rparr> = ''0: 4'' \<and>
   formatMetric example_env (Num 2)
     (suffix (example_options\<lparr>yDomain := Some (1, 5), reverse := True\<rparr>)) = ''2'' \<and>
   reverseData
     (example_options\<lparr>yDomain := Some (1, 5), reverse := True,
        valueFormat := Some (\<lambda>v. if v = Num (2476979795053773 / 2251799813685248)
                                 then ''original'' else ''other'')\<rparr>)
     [\<lparr>point_date = 0, point_value = 2476979795053773 / 2251799813685248\<rparr>] =
     [\<lparr>point_date = 0, point_value = 2758454771764429 / 562949953421312\<rparr>] \<and>
   displayValue example_env
     (example_options\<lparr>yDomain := Some (1, 5), reverse := True,
        valueFormat := Some (\<lambda>v. if v = Num (2476979795053773 / 2251799813685248)
                                 then ''original'' else ''other'')\<rparr>)
     (2758454771764429 / 562949953421312) = ''other''"
proof -
  have r: "fsub (fadd 5 1) (2476979795053773 / 2251799813685248) =
             2758454771764429 / 562949953421312"
    "fsub (fadd 5 1) (2758454771764429 / 562949953421312) = 619244948763443 / 562949953421312"
    by code_simp+
  have i: "isInteger 2" "isInteger 3" by (simp_all add: isInteger_def)
  have d: "deltaText 1 = ''+1''"
    by (simp add: deltaText_def isInteger_def Number_toString_small digits.simps digit_char_def)
  have f: "fsub 3 2 = 1" by code_simp
  have z: "Number_toString 0 = ''0''"
    by (simp add: Number_toString_def unsigned_toString_def)
  have e: "en_US_number 3 = ''3''" by code_simp
  show ?thesis
    by (simp add: buildTrendChart_def chartData_def List.map_filter_simps get_prop_def
          example_options_def example_env_def reverseData_def yAxis_initial_def yAxis_final_def
          xAxis_def marks_def calculateTrend_def trendBetween_def previousValue_def
          makeArrowNode_def chartDeltaText_def tipTitle_def displayValue_def
          en_US_small fsub_examples r i d f z e Let_def)
qed

lemma spec_tickText_examples:
  "spec_tickText (3 / 2) = ''1.5''" "spec_tickText 2 = ''2''"
  "spec_tickText (5 / 4) = ''1.25''" "spec_tickText (- (129 / 128)) = ''-1.01''"
  "spec_tickText (1025 / 1024) = ''1''"
  by code_simp+

lemma tick_example_doubles:
  "is_double (3 / 2)" "is_double 2" "is_double (5 / 4)" "is_double (- (129 / 128))"
  "is_double (1025 / 1024)" "is_double (5 / 2)"
  by code_simp+

text \<open>
  C8: the tick formatter of the y axis is chosen by the first rule that applies. An
  explicit \<open>tickFormat\<close> is used as it is, or, when \<open>reverse\<close> and a \<open>yDomain\<close> are given
  too, applied to the un-reversed tick position, JavaScript's \<open>hi + lo - d\<close>. Without
  \<open>tickFormat\<close>, a non-empty \<open>suffix\<close> gives the specification's tick text followed by
  the suffix; else, when every projected value is an integer, the format specifier
  \<open>"d"\<close>; else the specification's tick text alone. The tick text is the one of
  \<open>spec_tickText\<close>, for tick positions that are doubles of magnitude below \<open>2^53\<close>, where
  JavaScript prints every digit of an integer.
\<close>

theorem tick_format_policy:
  assumes "chartData h k \<noteq> []"
  shows "\<exists>cc. buildTrendChart env h l k opts = Chart cc \<and>
     (case tickFormat opts of
        Some f \<Rightarrow>
          (case yDomain opts of
             Some (lo, hi) \<Rightarrow>
               y_tickFormat (plot_y (card_chart cc)) =
                 (if reverse opts then TickFn (\<lambda>d. f (fsub (fadd hi lo) d)) else TickFn f)
           | None \<Rightarrow> y_tickFormat (plot_y (card_chart cc)) = TickFn f)
      | None \<Rightarrow>
          if suffix opts \<noteq> '''' then
            \<exists>g. y_tickFormat (plot_y (card_chart cc)) = TickFn g \<and>
                (\<forall>d. is_double d \<and> \<bar>d\<bar> < 2 ^ 53 \<longrightarrow> g d = spec_tickText d @ suffix opts)
          else if list_all (\<lambda>pt. isInteger (point_value pt)) (chartData h k) then
            y_tickFormat (plot_y (card_chart cc)) = TickSpec ''d''
          else
            \<exists>g. y_tickFormat (plot_y (card_chart cc)) = TickFn g \<and>
                (\<forall>d. is_double d \<and> \<bar>d\<bar> < 2 ^ 53 \<longrightarrow> g d = spec_tickText d))"
proof -
  have s: "\<bar>d\<bar> < 2 ^ 53 \<Longrightarrow> suffixTick sfx d = spec_tickText d @ sfx" for d sfx
    using tick_spec[of d] by (simp add: suffixTick_def)
  have p: "\<bar>d\<bar> < 2 ^ 53 \<Longrightarrow> plainTick d = spec_tickText d" for d
    using tick_spec[of d] by (simp add: plainTick_def)
  show ?thesis
    using assms s p
    by (auto simp: buildTrendChart_Chart yAxis_final_def yAxis_initial_def
          split: option.splits)
qed

theorem tick_format_policy_witness:
  "(\<exists>cc. buildTrendChart example_env
           [\<lparr>date = 0, metrics = [''r'' \<mapsto> Num 2]\<rparr>] [''r'' \<mapsto> Num 2] ''r''
           (example_options\<lparr>yDomain := Some (1, 5), reverse := True,
                            tickFormat := Some (\<lambda>d. Number_toString d)\<rparr>) = Chart cc \<and>
         y_tickFormat (plot_y (card_chart cc)) =
           TickFn (\<lambda>d. Number_toString (fsub (fadd 5 1) d))) \<and>
   (\<exists>cc g. buildTrendChart example_env
           [\<lparr>date = 0, metrics = [''r'' \<mapsto> Num 2]\<rparr>] [''r'' \<mapsto> Num 2] ''r''
           (example_options\<lparr>suffix := ''%''\<rparr>) = Chart cc \<and>
         y_tickFormat (plot_y (card_chart cc)) = TickFn g \<and>
         g (3 / 2) = ''1.5%'' \<and> g 2 = ''2%'' \<and> g (- (129 / 128)) = ''-1.01%'') \<and>
   (\<exists>cc. buildTrendChart example_env
           [\<lparr>date = 0, metrics = [''r'' \<mapsto> Num 2]\<rparr>] [''r'' \<mapsto> Num 2] ''r''
           example_options = Chart cc \<and>
         y_tickFormat (plot_y (card_chart cc)) = TickSpec ''d'') \<and>
   (\<exists>cc g. buildTrendChart example_env
           [\<lparr>date = 0, metrics = [''r'' \<mapsto> Num (5 / 2)]\<rparr>] [''r'' \<mapsto> Num (5 / 2)] ''r''
           example_options = Chart cc \<and>
         y_tickFormat (plot_y (card_chart cc)) = TickFn g \<and>
         g (5 / 4) = ''1.25'' \<and> g 2 = ''2'' \<and> g (1025 / 1024) = ''1'')"
proof (intro conjI)
  have ne: "chartData [\<lparr>date = 0, metrics = [''r'' \<mapsto> Num v]\<rparr>] ''r'' \<noteq> []" for v
    by (simp add: chartData_def List.map_filter_simps get_prop_def)
  have cd: "chartData [\<lparr>date = 0, metrics = [''r'' \<mapsto> Num v]\<rparr>] ''r'' =
              [\<lparr>point_date = 0, point_value = v\<rparr>]" for v
    by (simp add: chartData_def List.map_filter_simps get_prop_def)
  show "\<exists>cc. buildTrendChart example_env
           [\<lparr>date = 0, metrics = [''r'' \<mapsto> Num 2]\<rparr>] [''r'' \<mapsto> Num 2] ''r''
           (example_options\<lparr>yDomain := Some (1, 5), reverse := True,
                            tickFormat := Some (\<lambda>d. Number_toString d)\<rparr>) = Chart cc \<and>
         y_tickFormat (plot_y (card_chart cc)) =
           TickFn (\<lambda>d. Number_toString (fsub (fadd 5 1) d))"
    using tick_format_policy[OF ne[of 2], of example_env "[''r'' \<mapsto> Num 2]"
        "example_options\<lparr>yDomain := Some (1, 5), reverse := True,
                         tickFormat := Some (\<lambda>d. Number_toString d)\<rparr>"]
    by (simp add: example_options_def)
  show "\<exists>cc g. buildTrendChart example_env
           [\<lparr>date = 0, metrics = [''r'' \<mapsto> Num 2]\<rparr>] [''r'' \<mapsto> Num 2] ''r''
           (example_options\<lparr>suffix := ''%''\<rparr>) = Chart cc \<and>
         y_tickFormat (plot_y (card_chart cc)) = TickFn g \<and>
         g (3 / 2) = ''1.5%'' \<and> g 2 = ''2%'' \<and> g (- (129 / 128)) = ''-1.01%''"
  proof -
    obtain cc g where
      "buildTrendChart example_env
           [\<lparr>date = 0, metrics = [''r'' \<mapsto> Num 2]\<rparr>] [''r'' \<mapsto> Num 2] ''r''
           (example_options\<lparr>suffix := ''%''\<rparr>) = Chart cc"
      "y_tickFormat (plot_y (card_chart cc)) = TickFn g"
      "\<forall>d. is_double d \<and> \<bar>d\<bar> < 2 ^ 53 \<longrightarrow> g d = spec_tickText d @ ''%''"
      using tick_format_policy[OF ne[of 2], of example_env "[''r'' \<mapsto> Num 2]"
          "example_options\<lparr>suffix := ''%''\<rparr>"]
      by (auto simp: example_options_def)
    moreover from this(3) have "g (3 / 2) = spec_tickText (3 / 2) @ ''%''"
      "g 2 = spec_tickText 2 @ ''%''" "g (- (129 / 128)) = spec_tickText (- (129 / 128)) @ ''%''"
      by (simp_all add: tick_example_doubles)
    ultimately show ?thesis by (simp add: spec_tickText_examples)
  qed
  show "\<exists>cc. buildTrendChart example_env
           [\<lparr>date = 0, metrics = [''r'' \<mapsto> Num 2]\<rparr>] [''r'' \<mapsto> Num 2] ''r''
           example_options = Chart cc \<and>
         y_tickFormat (plot_y (card_chart cc)) = TickSpec ''d''"
    using tick_format_policy[OF ne[of 2], of example_env "[''r'' \<mapsto> Num 2]" example_options]
    by (simp add: example_options_def cd isInteger_def)
  show "\<exists>cc g. buildTrendChart example_env
           [\<lparr>date = 0, metrics = [''r'' \<mapsto> Num (5 / 2)]\<rparr>] [''r'' \<mapsto> Num (5 / 2)] ''r''
           example_options = Chart cc \<and>
         y_tickFormat (plot_y (card_chart cc)) = TickFn g \<and>
         g (5 / 4) = ''1.25'' \<and> g 2 = ''2'' \<and> g (1025 / 1024) = ''1''"
  proof -
    have ni: "\<not> isInteger (5 / 2)" by code_simp
    obtain cc g where
      "buildTrendChart example_env
           [\<lparr>date = 0, metrics = [''r'' \<mapsto> Num (5 / 2)]\<rparr>] [''r'' \<mapsto> Num (5 / 2)] ''r''
           example_options = Chart cc"
      "y_tickFormat (plot_y (card_chart cc)) = TickFn g"
      "\<forall>d. is_double d \<and> \<bar>d\<bar> < 2 ^ 53 \<longrightarrow> g d = spec_tickText d"
      using tick_format_policy[OF ne[of "5 / 2"], of example_env "[''r'' \<mapsto> Num (5 / 2)]"
          example_options] ni
      by (auto simp: example_options_def cd)
    moreover from this(3) have "g (5 / 4) = spec_tickText (5 / 4)" "g 2 = spec_tickText 2"
      "g (1025 / 1024) = spec_tickText (1025 / 1024)"
      by (simp_all add: tick_example_doubles)
    ultimately show ?thesis by (simp add: spec_tickText_examples)
  qed
qed
section \<open>The store: what is written and what is kept\<close>

lemma extends_refl [simp]: "extends st st"
  by (simp add: extends_def)

lemma extends_trans:
  assumes "extends st st1" and "extends st1 st2"
  shows "extends st st2"
proof -
  have l: "length st \<le> length st1" "length st1 \<le> length st2"
    and t: "take (length st) st1 = st" "take (length st1) st2 = st1"
    using assms by (simp_all add: extends_def)
  have "take (length st) st2 = take (length st) (take (length st1) st2)"
    using l by (simp add: min_def)
  also have "\<dots> = st" using t by simp
  finally show ?thesis using l by (simp add: extends_def)
qed

lemma extends_append [simp]: "extends st (st @ new)"
  by (simp add: extends_def)

lemma extends_overwrite:
  "extends st0 st \<Longrightarrow> length st0 \<le> a \<Longrightarrow> extends st0 (overwrite a ob st)"
  by (simp add: extends_def overwrite_def)

lemma length_overwrite [simp]: "length (overwrite a ob st) = length st"
  by (simp add: overwrite_def)

lemma read_extends: "extends st st' \<Longrightarrow> read st a = Some ob \<Longrightarrow> read st' a = Some ob"
proof -
  assume e: "extends st st'" and r: "read st a = Some ob"
  then have a: "a < length st" "st ! a = ob" by (auto simp: read_def split: if_splits)
  have "take (length st) st' ! a = st' ! a" using a by simp
  with e a show ?thesis by (auto simp: extends_def read_def)
qed

lemma read_overwrite:
  "read (overwrite a ob st) b = (if b = a \<and> a < length st then Some ob else read st b)"
  by (auto simp: read_def overwrite_def)

lemma read_metrics_extends:
  "extends st st' \<Longrightarrow> read_metrics st a = Some ms \<Longrightarrow> read_metrics st' a = Some ms"
  by (auto simp: read_metrics_def dest: read_extends split: option.splits obj.splits)

lemma read_date_extends:
  "extends st st' \<Longrightarrow> read_date st a = Some t \<Longrightarrow> read_date st' a = Some t"
  by (auto simp: read_date_def dest: read_extends split: option.splits obj.splits)

lemma read_array_extends:
  "extends st st' \<Longrightarrow> read_array st a = Some es \<Longrightarrow> read_array st' a = Some es"
  by (auto simp: read_array_def dest: read_extends split: option.splits obj.splits)

lemma snapshot_at_extends:
  assumes "extends st st'" and "snapshot_at st e = Some s"
  shows "snapshot_at st' e = Some s"
proof -
  obtain d m t ms where r: "read st e = Some (EntryObj d m)" "read_date st d = Some t"
      "read_metrics st m = Some ms" and s: "s = \<lparr>date = t, metrics = ms\<rparr>"
    using assms(2) by (auto simp: snapshot_at_def split: option.splits obj.splits)
  have "read st' e = Some (EntryObj d m)" "read_date st' d = Some t"
      "read_metrics st' m = Some ms"
    using assms(1) r by (auto intro: read_extends read_date_extends read_metrics_extends)
  then show ?thesis by (simp add: snapshot_at_def s)
qed

lemma snapshots_at_extends:
  "extends st st' \<Longrightarrow> snapshots_at st es = Some ss \<Longrightarrow> snapshots_at st' es = Some ss"
proof (induction es arbitrary: ss)
  case Nil
  then show ?case by simp
next
  case (Cons e es)
  from Cons.prems(2) obtain s ss' where
    "snapshot_at st e = Some s" "snapshots_at st es = Some ss'" "ss = s # ss'"
    by (auto split: option.splits)
  then show ?case
    using Cons.IH[OF Cons.prems(1)] snapshot_at_extends[OF Cons.prems(1)] by simp
qed

lemma history_at_extends:
  assumes "extends st st'" and "history_at st a = Some h"
  shows "history_at st' a = Some h"
proof -
  obtain es where "read_array st a = Some es" "snapshots_at st es = Some h"
    using assms(2) by (auto simp: history_at_def split: option.splits)
  then have "read_array st' a = Some es" "snapshots_at st' es = Some h"
    using assms(1) by (auto intro: read_array_extends snapshots_at_extends)
  then show ?thesis by (simp add: history_at_def)
qed
lemma point_at_SomeD:
  assumes "point_at st a = Some p"
  obtains d where "read st a = Some (PointObj d (Num (point_value p)))"
    "read_date st d = Some (point_date p)"
  using assms by (auto simp: point_at_def split: option.splits obj.splits jsval.splits)

lemma point_at_I:
  "read st a = Some (PointObj d (Num v)) \<Longrightarrow> read_date st d = Some t \<Longrightarrow>
   point_at st a = Some \<lparr>point_date = t, point_value = v\<rparr>"
  by (simp add: point_at_def)

lemma read_date_overwrite_point:
  assumes "read st a = Some (PointObj d0 v0)"
  shows "read_date (overwrite a (PointObj d1 v1) st) x = read_date st x"
  using assms by (auto simp: read_date_def read_overwrite)

lemma point_at_overwrite_other:
  assumes "read st a = Some (PointObj d0 v0)" and "b \<noteq> a"
  shows "point_at (overwrite a (PointObj d1 v1) st) b = point_at st b"
  using assms
  by (simp add: point_at_def read_overwrite read_date_overwrite_point[OF assms(1)]
        cong: option.case_cong obj.case_cong jsval.case_cong)

lemma points_at_overwrite_other:
  assumes "read st a = Some (PointObj d0 v0)" and "a \<notin> set as"
  shows "points_at (overwrite a (PointObj d1 v1) st) as = points_at st as"
  using assms(2)
  by (induction as) (simp_all add: point_at_overwrite_other[OF assms(1)])

lemma points_at_point:
  "points_at st as = Some pts \<Longrightarrow> b \<in> set as \<Longrightarrow> \<exists>p. point_at st b = Some p"
  by (induction as arbitrary: pts) (auto split: option.splits)

lemma points_at_length: "points_at st as = Some pts \<Longrightarrow> length pts = length as"
  by (induction as arbitrary: pts) (auto split: option.splits)

lemma date_not_point:
  assumes "points_at st as = Some pts" and "read_date st d = Some t"
  shows "d \<notin> set as"
proof
  assume "d \<in> set as"
  then obtain p where "point_at st d = Some p" using assms(1) points_at_point by blast
  then obtain d' where "read st d = Some (PointObj d' (Num (point_value p)))"
    by (rule point_at_SomeD)
  with assms(2) show False by (simp add: read_date_def)
qed

lemma reverse_store_points:
  assumes "points_at st ps = Some pts" and "distinct ps"
  shows "\<exists>st'. reverse_store lo hi ps st = Some st' \<and> length st' = length st \<and>
           points_at st' ps = Some (map (\<lambda>d. d\<lparr>point_value := fsub (fadd hi lo) (point_value d)\<rparr>) pts) \<and>
           (\<forall>b. b \<notin> set ps \<longrightarrow> read st' b = read st b)"
  using assms
proof (induction ps arbitrary: st pts)
  case Nil
  then show ?case by simp
next
  case (Cons a as)
  from Cons.prems(1) obtain p pts' where
    p: "point_at st a = Some p" and as: "points_at st as = Some pts'" and pts: "pts = p # pts'"
    by (auto split: option.splits)
  from p obtain d where
    ra: "read st a = Some (PointObj d (Num (point_value p)))" and
    rd: "read_date st d = Some (point_date p)"
    by (rule point_at_SomeD)
  define st1 where "st1 = overwrite a (PointObj d (Num (fsub (fadd hi lo) (point_value p)))) st"
  have na: "a \<notin> set as" and das: "distinct as" using Cons.prems(2) by simp_all
  have as1: "points_at st1 as = Some pts'"
    unfolding st1_def using points_at_overwrite_other[OF ra na] as by simp
  from Cons.IH[OF as1 das] obtain st' where
    rs: "reverse_store lo hi as st1 = Some st'" and len: "length st' = length st1" and
    pa: "points_at st' as =
           Some (map (\<lambda>d. d\<lparr>point_value := fsub (fadd hi lo) (point_value d)\<rparr>) pts')" and
    fr: "\<forall>b. b \<notin> set as \<longrightarrow> read st' b = read st1 b"
    by blast
  have al: "a < length st" using ra by (auto simp: read_def split: if_splits)
  have rd1: "read_date st1 d = Some (point_date p)"
    unfolding st1_def using read_date_overwrite_point[OF ra] rd by simp
  have dn: "d \<notin> set as" using as1 rd1 by (rule date_not_point)
  have "read st' a = Some (PointObj d (Num (fsub (fadd hi lo) (point_value p))))"
    using fr na al by (simp add: st1_def read_overwrite)
  moreover have "read_date st' d = Some (point_date p)"
    using fr dn rd1 by (simp add: read_date_def)
  ultimately have pa': "point_at st' a = Some (p\<lparr>point_value := fsub (fadd hi lo) (point_value p)\<rparr>)"
    by (simp add: point_at_def)
  have "reverse_store lo hi (a # as) st = Some st'"
    using ra rs by (simp add: st1_def)
  moreover have "length st' = length st" using len by (simp add: st1_def)
  moreover have "points_at st' (a # as) =
      Some (map (\<lambda>d. d\<lparr>point_value := fsub (fadd hi lo) (point_value d)\<rparr>) pts)"
    using pa' pa by (simp add: pts)
  moreover have "\<forall>b. b \<notin> set (a # as) \<longrightarrow> read st' b = read st b"
    using fr by (simp add: st1_def read_overwrite)
  ultimately show ?case by blast
qed
lemma snapshot_at_SomeD:
  assumes "snapshot_at st e = Some s"
  obtains d m where "read st e = Some (EntryObj d m)" "read_date st d = Some (date s)"
    "read_metrics st m = Some (metrics s)"
  using assms by (auto simp: snapshot_at_def split: option.splits obj.splits)

lemma entry_of_snapshot:
  assumes "snapshot_at st e = Some s"
  shows "entry_metric st key e = Some (get_prop (metrics s) key)"
    and "\<exists>d. entry_date st e = Some d \<and> read_date st d = Some (date s)"
proof -
  from assms obtain d m where "read st e = Some (EntryObj d m)"
      "read_date st d = Some (date s)" "read_metrics st m = Some (metrics s)"
    by (rule snapshot_at_SomeD)
  then show "entry_metric st key e = Some (get_prop (metrics s) key)"
    and "\<exists>d. entry_date st e = Some d \<and> read_date st d = Some (date s)"
    by (simp_all add: entry_metric_def entry_date_def)
qed

lemma snapshots_at_ConsD:
  assumes "snapshots_at st (e # es) = Some ss"
  obtains s ss' where "snapshot_at st e = Some s" "snapshots_at st es = Some ss'" "ss = s # ss'"
  using assms by (auto split: option.splits)

lemma snapshots_at_nth:
  "snapshots_at st es = Some ss \<Longrightarrow>
   length ss = length es \<and> (\<forall>i < length es. snapshot_at st (es ! i) = Some (ss ! i))"
proof (induction es arbitrary: ss)
  case Nil
  then show ?case by simp
next
  case (Cons e es)
  from Cons.prems obtain s ss' where
    s: "snapshot_at st e = Some s" "snapshots_at st es = Some ss'" "ss = s # ss'"
    by (rule snapshots_at_ConsD)
  from Cons.IH[OF s(2)] have ih: "length ss' = length es"
    "\<forall>i < length es. snapshot_at st (es ! i) = Some (ss' ! i)" by simp_all
  show ?case
  proof (intro conjI allI impI)
    show "length ss = length (e # es)" using ih(1) s(3) by simp
    fix i assume "i < length (e # es)"
    then show "snapshot_at st ((e # es) ! i) = Some (ss ! i)"
      using ih(2) s(1,3) by (cases i) simp_all
  qed
qed

lemma chartData_Cons:
  "chartData (s # ss) key =
     (case get_prop (metrics s) key of
        Num v \<Rightarrow> \<lparr>point_date = date s, point_value = v\<rparr> # chartData ss key
      | _ \<Rightarrow> chartData ss key)"
  by (simp add: chartData_def List.map_filter_simps split: jsval.splits)

lemma chartData_filter:
  "chartData (filter (\<lambda>s. \<not> is_nullish (get_prop (metrics s) key)) ss) key = chartData ss key"
  by (induction ss) (auto simp: chartData_Cons split: jsval.splits)

lemma filter_store_ok:
  assumes "snapshots_at st es = Some ss"
  shows "\<exists>kept. filter_store st key es = Some kept \<and>
           snapshots_at st kept =
             Some (filter (\<lambda>s. \<not> is_nullish (get_prop (metrics s) key)) ss)"
  using assms
proof (induction es arbitrary: ss)
  case Nil
  then show ?case by simp
next
  case (Cons e es)
  from Cons.prems obtain s ss' where
    s: "snapshot_at st e = Some s" "snapshots_at st es = Some ss'" "ss = s # ss'"
    by (rule snapshots_at_ConsD)
  from Cons.IH[OF s(2)] obtain kept where
    k: "filter_store st key es = Some kept"
       "snapshots_at st kept =
          Some (filter (\<lambda>s. \<not> is_nullish (get_prop (metrics s) key)) ss')"
    by blast
  show ?case
    using s k entry_of_snapshot(1)[OF s(1), of key] by simp
qed

lemma points_at_extends:
  assumes "extends st st'" and "points_at st ps = Some pts"
  shows "points_at st' ps = Some pts"
  using assms(2)
proof (induction ps arbitrary: pts)
  case Nil
  then show ?case by simp
next
  case (Cons a as)
  from Cons.prems obtain p pts' where
    p: "point_at st a = Some p" "points_at st as = Some pts'" "pts = p # pts'"
    by (auto split: option.splits)
  from p(1) obtain d where "read st a = Some (PointObj d (Num (point_value p)))"
      "read_date st d = Some (point_date p)"
    by (rule point_at_SomeD)
  then have "read st' a = Some (PointObj d (Num (point_value p)))"
      "read_date st' d = Some (point_date p)"
    using assms(1) by (auto intro: read_extends read_date_extends)
  then have "point_at st' a = Some p" by (simp add: point_at_def)
  with Cons.IH[OF p(2)] p(3) show ?case by simp
qed

lemma map_store_ok:
  assumes "snapshots_at st es = Some ss"
    and "\<forall>s \<in> set ss. \<not> is_nullish (get_prop (metrics s) key)"
  shows "\<exists>ps st'. map_store key es st = Some (ps, st') \<and> extends st st' \<and>
           (\<forall>a \<in> set ps. length st \<le> a \<and> a < length st') \<and> distinct ps \<and>
           points_at st' ps = Some (chartData ss key)"
  using assms
proof (induction es arbitrary: st ss)
  case Nil
  then show ?case by (simp add: chartData_def List.map_filter_simps)
next
  case (Cons e es)
  from Cons.prems(1) obtain s ss' where
    s: "snapshot_at st e = Some s" "snapshots_at st es = Some ss'" "ss = s # ss'"
    by (rule snapshots_at_ConsD)
  from entry_of_snapshot(2)[OF s(1)] obtain d where
    d: "entry_date st e = Some d" "read_date st d = Some (date s)" by blast
  have "\<not> is_nullish (get_prop (metrics s) key)" using Cons.prems(2) s(3) by simp
  then obtain v where v: "get_prop (metrics s) key = Num v"
    by (cases "get_prop (metrics s) key") simp_all
  have m: "entry_metric st key e = Some (Num v)"
    using entry_of_snapshot(1)[OF s(1), of key] v by simp
  define st1 where "st1 = st @ [PointObj d (Num v)]"
  have al: "alloc (PointObj d (Num v)) st = (length st, st1)"
    by (simp add: alloc_def st1_def)
  have e1: "extends st st1" by (simp add: st1_def)
  have s1: "snapshots_at st1 es = Some ss'" using e1 s(2) by (rule snapshots_at_extends)
  have n1: "\<forall>s \<in> set ss'. \<not> is_nullish (get_prop (metrics s) key)"
    using Cons.prems(2) s(3) by simp
  from Cons.IH[OF s1 n1] obtain ps st2 where
    ih: "map_store key es st1 = Some (ps, st2)" "extends st1 st2"
        "\<forall>a \<in> set ps. length st1 \<le> a \<and> a < length st2" "distinct ps"
        "points_at st2 ps = Some (chartData ss' key)"
    by blast
  have e2: "extends st st2" using e1 ih(2) by (rule extends_trans)
  have l1: "length st1 = Suc (length st)" by (simp add: st1_def)
  have l2: "length st1 \<le> length st2" using ih(2) by (simp add: extends_def)
  have "read st1 (length st) = Some (PointObj d (Num v))"
    by (simp add: read_def st1_def)
  then have r2: "read st2 (length st) = Some (PointObj d (Num v))"
    using ih(2) by (rule read_extends[rotated])
  have d2: "read_date st2 d = Some (date s)" using e2 d(2) by (rule read_date_extends)
  have p0: "point_at st2 (length st) = Some \<lparr>point_date = date s, point_value = v\<rparr>"
    using r2 d2 by (rule point_at_I)
  have "map_store key (e # es) st = Some (length st # ps, st2)"
    using d(1) m al ih(1) by simp
  moreover have "\<forall>a \<in> set (length st # ps). length st \<le> a \<and> a < length st2"
    using ih(3) l1 l2 by auto
  moreover have "distinct (length st # ps)" using ih(3,4) l1 by auto
  moreover have "points_at st2 (length st # ps) = Some (chartData ss key)"
    using p0 ih(5) v by (simp add: s(3) chartData_Cons)
  ultimately show ?case using e2 by blast
qed

lemma every_integer_ok:
  "points_at st ps = Some pts \<Longrightarrow>
   every_integer st ps = Some (list_all (\<lambda>p. isInteger (point_value p)) pts)"
proof (induction ps arbitrary: pts)
  case Nil
  then show ?case by simp
next
  case (Cons a as)
  from Cons.prems obtain p pts' where
    p: "point_at st a = Some p" "points_at st as = Some pts'" "pts = p # pts'"
    by (auto split: option.splits)
  from p(1) obtain d where "read st a = Some (PointObj d (Num (point_value p)))"
    by (rule point_at_SomeD)
  with Cons.IH[OF p(2)] p(3) show ?case by simp
qed
lemma extends_set_domain:
  "extends st0 st \<Longrightarrow> length st0 \<le> a \<Longrightarrow> extends st0 (set_domain a yd st)"
  by (auto simp: set_domain_def intro: extends_overwrite split: option.splits obj.splits)

lemma extends_set_tickFormat:
  "extends st0 st \<Longrightarrow> length st0 \<le> a \<Longrightarrow> extends st0 (set_tickFormat a tf st)"
  by (auto simp: set_tickFormat_def intro: extends_overwrite split: option.splits obj.splits)

lemma yAxis_store_ok:
  assumes "yAxis_store options allIntegers st = (ya, st')"
  shows "extends st st' \<and> ya = length st \<and>
         read st' ya =
           Some (YAxisObj (yDomain options)
                   (Some (y_tickFormat (yAxis_initial options allIntegers))))"
proof -
  define st1 where "st1 = st @ [YAxisObj None None]"
  define st2 where
    "st2 = (case yDomain options of Some yd \<Rightarrow> set_domain (length st) yd st1 | None \<Rightarrow> st1)"
  have ya: "ya = length st"
    and st': "st' = set_tickFormat (length st)
                      (y_tickFormat (yAxis_initial options allIntegers)) st2"
    using assms unfolding yAxis_store_def alloc_def Let_def st1_def st2_def by auto
  have e1: "extends st st1" by (simp add: st1_def)
  have r1: "read st1 (length st) = Some (YAxisObj None None)"
    by (simp add: st1_def read_def)
  have e2: "extends st st2"
    unfolding st2_def using e1 by (auto intro: extends_set_domain split: option.splits)
  have r2: "read st2 (length st) = Some (YAxisObj (yDomain options) None)"
    unfolding st2_def using r1
    by (auto simp: set_domain_def read_overwrite read_def st1_def overwrite_def
          split: option.splits)
  have e3: "extends st st'" unfolding st' using e2 by (rule extends_set_tickFormat) simp
  have l2: "length st < length st2" using r2 by (auto simp: read_def split: if_splits)
  have "read st' (length st) =
          Some (YAxisObj (yDomain options)
                  (Some (y_tickFormat (yAxis_initial options allIntegers))))"
    unfolding st' using r2 l2 by (simp add: set_tickFormat_def read_overwrite)
  with e3 ya show ?thesis by simp
qed

lemma yAxis_final_store_ok:
  assumes "extends st0 st" and "length st0 \<le> ya"
    and "read st ya = Some (YAxisObj yd (Some (y_tickFormat y0)))" and "y_domain y0 = yd"
  shows "extends st0 (yAxis_final_store options ya st) \<and>
         read (yAxis_final_store options ya st) ya =
           Some (YAxisObj yd (Some (y_tickFormat (yAxis_final options y0)))) \<and>
         (\<forall>b. b \<noteq> ya \<longrightarrow> read (yAxis_final_store options ya st) b = read st b)"
proof -
  have l: "ya < length st" using assms(3) by (auto simp: read_def split: if_splits)
  show ?thesis
    using assms l
    by (auto simp: yAxis_final_store_def yAxis_final_def set_tickFormat_def read_overwrite
          intro: extends_overwrite split: option.splits)
qed

lemma xAxis_store_ok:
  assumes "points_at st ps = Some pts"
  shows "\<exists>xa st'. xAxis_store env ps st = Some (xa, st') \<and> extends st st' \<and> xa = length st \<and>
           (case pts of
              [p] \<Rightarrow>
                (\<exists>firstDay lastDay.
                   read st' xa = Some (XAxisObj (Some (firstDay, lastDay))) \<and>
                   length st < firstDay \<and> length st < lastDay \<and>
                   read_date st' firstDay = Some (shiftDate env (- 6) (point_date p)) \<and>
                   read_date st' lastDay = Some (point_date p))
            | _ \<Rightarrow> read st' xa = Some (XAxisObj None))"
proof -
  define st1 where "st1 = st @ [XAxisObj None]"
  have al: "alloc (XAxisObj None) st = (length st, st1)" by (simp add: alloc_def st1_def)
  have e1: "extends st st1" by (simp add: st1_def)
  have r1: "read st1 (length st) = Some (XAxisObj None)" by (simp add: st1_def read_def)
  have len: "length pts = length ps" using assms by (rule points_at_length)
  show ?thesis
  proof (cases "\<exists>pa. ps = [pa]")
    case False
    then have "xAxis_store env ps st = Some (length st, st1)"
      using al by (auto simp: xAxis_store_def split: list.splits)
    moreover have "case pts of [p] \<Rightarrow> False | _ \<Rightarrow> True"
      using False len by (cases pts; cases ps) (auto split: list.splits)
    ultimately show ?thesis using e1 r1 by (auto split: list.splits)
  next
    case True
    then obtain pa where ps: "ps = [pa]" by blast
    then obtain p where pts: "pts = [p]" and p: "point_at st pa = Some p"
      using assms by (auto split: option.splits)
    from p obtain d where d: "read st pa = Some (PointObj d (Num (point_value p)))"
        "read_date st d = Some (point_date p)"
      by (rule point_at_SomeD)
    have d1: "read st1 pa = Some (PointObj d (Num (point_value p)))"
        "read_date st1 d = Some (point_date p)"
      using e1 d by (auto intro: read_extends read_date_extends)
    define t where "t = point_date p"
    define st3 where "st3 = st1 @ [DateObj t] @ [DateObj t]"
    define st5 where
      "st5 = overwrite (length st) (XAxisObj (Some (Suc (length st), Suc (Suc (length st)))))
               (overwrite (Suc (length st)) (DateObj (shiftDate env (- 6) t)) st3)"
    have x: "xAxis_store env ps st = Some (length st, st5)"
      using d1 unfolding xAxis_store_def ps alloc_def Let_def st5_def st3_def t_def st1_def
      by simp
    have e3: "extends st st3" by (simp add: st3_def st1_def)
    have e5: "extends st st5"
      unfolding st5_def by (intro extends_overwrite e3) simp_all
    have l3: "length st3 = length st + 3" by (simp add: st3_def st1_def)
    have "read st5 (length st) = Some (XAxisObj (Some (Suc (length st), Suc (Suc (length st)))))"
      using l3 by (simp add: st5_def read_overwrite)
    moreover have "read_date st5 (Suc (length st)) = Some (shiftDate env (- 6) t)"
      using l3 by (simp add: st5_def read_date_def read_overwrite)
    moreover have "read_date st5 (Suc (Suc (length st))) = Some t"
      using l3 by (simp add: st5_def read_date_def read_def st3_def st1_def
          overwrite_def nth_append)
    ultimately show ?thesis using x e5 by (simp add: pts t_def)
  qed
qed
lemma extends_of_reads:
  assumes "extends st0 st" and "length st' = length st"
    and "\<forall>b < length st0. read st' b = read st b"
  shows "extends st0 st'"
proof -
  have l: "length st0 \<le> length st" and t: "take (length st0) st = st0"
    using assms(1) by (simp_all add: extends_def)
  have "take (length st0) st' = take (length st0) st"
  proof (rule nth_equalityI)
    show "length (take (length st0) st') = length (take (length st0) st)"
      using assms(2) by simp
    fix i assume "i < length (take (length st0) st')"
    then have i: "i < length st0" "i < length st" "i < length st'"
      using l assms(2) by simp_all
    then have "read st' i = read st i" using assms(3) by simp
    then show "take (length st0) st' ! i = take (length st0) st ! i"
      using i by (simp add: read_def)
  qed
  with t l assms(2) show ?thesis by (simp add: extends_def)
qed

lemma points_at_same_reads:
  assumes "points_at st ps = Some pts"
    and "\<forall>b. b \<noteq> x \<longrightarrow> read st' b = read st b"
    and "point_at st x = None" and "read_date st x = None"
  shows "points_at st' ps = Some pts"
  using assms(1)
proof (induction ps arbitrary: pts)
  case Nil
  then show ?case by simp
next
  case (Cons a as)
  from Cons.prems obtain p pts' where
    p: "point_at st a = Some p" "points_at st as = Some pts'" "pts = p # pts'"
    by (auto split: option.splits)
  from p(1) obtain d where d: "read st a = Some (PointObj d (Num (point_value p)))"
      "read_date st d = Some (point_date p)"
    by (rule point_at_SomeD)
  have "a \<noteq> x" using p(1) assms(3) by auto
  moreover have "d \<noteq> x" using d(2) assms(4) by auto
  ultimately have "read st' a = Some (PointObj d (Num (point_value p)))"
      "read_date st' d = Some (point_date p)"
    using d assms(2) by (simp_all add: read_date_def)
  then have "point_at st' a = Some p" by (simp add: point_at_def)
  with Cons.IH[OF p(2)] p(3) show ?case by simp
qed

lemma calculateTrend_store_ok:
  assumes "history_at st metricHistory = Some h" and "read_metrics st latestMetrics = Some l"
  shows "calculateTrend_store st metricHistory latestMetrics key options =
           Some (calculateTrend h l key options, st)"
proof -
  obtain es where es: "read_array st metricHistory = Some es" "snapshots_at st es = Some h"
    using assms(1) by (auto simp: history_at_def split: option.splits)
  from snapshots_at_nth[OF es(2)] have len: "length h = length es"
    and nth: "\<forall>i < length es. snapshot_at st (es ! i) = Some (h ! i)" by simp_all
  show ?thesis
  proof (cases "length es < 2")
    case True
    then show ?thesis
      using es(1) len by (simp add: calculateTrend_store_def calculateTrend_def)
  next
    case False
    then have "length es - 2 < length es" by simp
    then have "snapshot_at st (es ! (length es - 2)) = Some (h ! (length es - 2))"
      using nth by blast
    then have "previous_store st es key = previousValue h key"
      using entry_of_snapshot(1) by (simp add: previous_store_def previousValue_def len)
    then show ?thesis
      using False es(1) len assms(2)
      by (simp add: calculateTrend_store_def calculateTrend_def)
  qed
qed
lemma map_store_frame:
  "map_store key es st = Some (ps, st') \<Longrightarrow>
   extends st st' \<and> (\<forall>a \<in> set ps. length st \<le> a \<and> a < length st')"
proof (induction es arbitrary: st ps st')
  case Nil
  then show ?case by simp
next
  case (Cons e es)
  from Cons.prems obtain d v where dv: "entry_date st e = Some d" "entry_metric st key e = Some v"
    by (cases "entry_date st e"; cases "entry_metric st key e") simp_all
  define st1 where "st1 = st @ [PointObj d v]"
  from Cons.prems dv obtain ps' where
    s: "map_store key es st1 = Some (ps', st')" "ps = length st # ps'"
    by (cases "map_store key es st1") (auto simp: alloc_def st1_def)
  from Cons.IH[OF s(1)] have
    ih: "extends st1 st'" "\<forall>a \<in> set ps'. length st1 \<le> a \<and> a < length st'"
    by simp_all
  have "extends st st1" by (simp add: st1_def)
  then have "extends st st'" using ih(1) by (rule extends_trans)
  moreover have "length st < length st'" using ih(1) by (simp add: extends_def st1_def)
  ultimately show ?case using ih(2) s(2) by (auto simp: st1_def)
qed

lemma reverse_store_frame:
  "reverse_store lo hi ps st = Some st' \<Longrightarrow>
   length st' = length st \<and> (\<forall>b. b \<notin> set ps \<longrightarrow> read st' b = read st b)"
proof (induction ps arbitrary: st)
  case Nil
  then show ?case by simp
next
  case (Cons a as)
  from Cons.prems obtain d v where
    s: "reverse_store lo hi as (overwrite a (PointObj d (Num (fsub (fadd hi lo) v))) st) = Some st'"
    by (auto split: option.splits obj.splits jsval.splits)
  from Cons.IH[OF s] show ?case by (simp add: read_overwrite)
qed

lemma reverse_stage_frame:
  assumes "reverse_stage options ps st = Some st'"
  shows "length st' = length st \<and> (\<forall>b. b \<notin> set ps \<longrightarrow> read st' b = read st b)"
proof (cases "yDomain options")
  case None
  then show ?thesis using assms by (simp add: reverse_stage_def)
next
  case (Some yd)
  obtain lo hi where yd: "yd = (lo, hi)" by (cases yd)
  show ?thesis
  proof (cases "reverse options")
    case False
    then show ?thesis using assms Some yd by (simp add: reverse_stage_def)
  next
    case True
    then have "reverse_store lo hi ps st = Some st'"
      using assms Some yd by (simp add: reverse_stage_def)
    then show ?thesis by (rule reverse_store_frame)
  qed
qed

lemma reverse_stage_ok:
  assumes "points_at st ps = Some pts" and "distinct ps"
  shows "\<exists>st'. reverse_stage options ps st = Some st' \<and>
              points_at st' ps = Some (reverseData options pts)"
proof (cases "yDomain options")
  case None
  then show ?thesis using assms(1) by (simp add: reverse_stage_def reverseData_def)
next
  case (Some yd)
  obtain lo hi where yd: "yd = (lo, hi)" by (cases yd)
  show ?thesis
  proof (cases "reverse options")
    case False
    then show ?thesis using assms(1) Some yd by (simp add: reverse_stage_def reverseData_def)
  next
    case True
    from reverse_store_points[OF assms, of lo hi] show ?thesis
      using True Some yd by (auto simp: reverse_stage_def reverseData_def)
  qed
qed

lemma project_store_frame:
  assumes "project_store st metricHistory key = Some (cd, ps, st3)"
  shows "extends st st3 \<and> (\<forall>a \<in> set ps. length st \<le> a) \<and> cd < length st3"
proof -
  from assms obtain es where es: "read_array st metricHistory = Some es"
    by (cases "read_array st metricHistory") (simp_all add: project_store_def)
  from assms es obtain kept where kept: "filter_store st key es = Some kept"
    by (cases "filter_store st key es") (simp_all add: project_store_def)
  define st1 where "st1 = st @ [ArrayObj kept]"
  from assms es kept obtain st2 where
    m: "map_store key kept st1 = Some (ps, st2)" and r: "cd = length st2" "st3 = st2 @ [ArrayObj ps]"
    by (cases "map_store key kept st1") (auto simp: project_store_def alloc_def st1_def)
  from map_store_frame[OF m] have
    f: "extends st1 st2" "\<forall>a \<in> set ps. length st1 \<le> a \<and> a < length st2" by simp_all
  have "extends st st1" by (simp add: st1_def)
  then have "extends st st2" using f(1) by (rule extends_trans)
  then have "extends st st3" unfolding r(2) using extends_append by (rule extends_trans)
  moreover have "\<forall>a \<in> set ps. length st \<le> a" using f(2) by (auto simp: st1_def)
  ultimately show ?thesis using r by simp
qed

lemma project_store_ok:
  assumes "history_at st metricHistory = Some h"
  shows "\<exists>cd ps st3. project_store st metricHistory key = Some (cd, ps, st3) \<and>
           length st < cd \<and> cd \<notin> set ps \<and> distinct ps \<and>
           read_array st3 cd = Some ps \<and> points_at st3 ps = Some (chartData h key)"
proof -
  obtain es where es: "read_array st metricHistory = Some es" "snapshots_at st es = Some h"
    using assms by (auto simp: history_at_def split: option.splits)
  define hf where "hf = filter (\<lambda>s. \<not> is_nullish (get_prop (metrics s) key)) h"
  from filter_store_ok[OF es(2), of key] obtain kept where
    kept: "filter_store st key es = Some kept" "snapshots_at st kept = Some hf"
    by (auto simp: hf_def)
  define st1 where "st1 = st @ [ArrayObj kept]"
  have e1: "extends st st1" by (simp add: st1_def)
  have k1: "snapshots_at st1 kept = Some hf" using e1 kept(2) by (rule snapshots_at_extends)
  have nn: "\<forall>s \<in> set hf. \<not> is_nullish (get_prop (metrics s) key)" by (simp add: hf_def)
  from map_store_ok[OF k1 nn] obtain ps st2 where
    m: "map_store key kept st1 = Some (ps, st2)" "extends st1 st2"
       "\<forall>a \<in> set ps. length st1 \<le> a \<and> a < length st2" "distinct ps"
       "points_at st2 ps = Some (chartData hf key)"
    by blast
  have cdh: "chartData hf key = chartData h key" unfolding hf_def by (rule chartData_filter)
  define st3 where "st3 = st2 @ [ArrayObj ps]"
  have "extends st2 st3" by (simp add: st3_def)
  then have p3: "points_at st3 ps = Some (chartData h key)"
    using m(5) cdh by (simp add: points_at_extends)
  have "length st1 \<le> length st2" using m(2) by (simp add: extends_def)
  then have l: "length st < length st2" by (simp add: st1_def)
  have cd3: "read_array st3 (length st2) = Some ps"
    by (simp add: read_array_def read_def st3_def)
  have "project_store st metricHistory key = Some (length st2, ps, st3)"
    using es(1) kept(1) m(1)
    unfolding project_store_def alloc_def st1_def st3_def by simp
  moreover have "length st2 \<notin> set ps" using m(3) by auto
  ultimately show ?thesis using l m(4) cd3 p3 by blast
qed
lemma xAxis_store_frame:
  assumes "xAxis_store env ps st = Some (xa, st')"
  shows "extends st st'"
proof -
  define st1 where "st1 = st @ [XAxisObj None]"
  have e1: "extends st st1" by (simp add: st1_def)
  show ?thesis
  proof (cases "\<exists>pa. ps = [pa]")
    case False
    then have "st' = st1"
      using assms by (auto simp: xAxis_store_def alloc_def st1_def split: list.splits)
    then show ?thesis using e1 by simp
  next
    case True
    then obtain pa where ps: "ps = [pa]" by blast
    from assms obtain d v where pv: "read st1 pa = Some (PointObj d v)"
      unfolding xAxis_store_def ps alloc_def st1_def
      by (cases "read (st @ [XAxisObj None]) pa") (auto split: obj.splits)
    from assms pv obtain t where t: "read_date st1 d = Some t"
      unfolding xAxis_store_def ps alloc_def st1_def
      by (cases "read_date (st @ [XAxisObj None]) d") auto
    define st3 where "st3 = st1 @ [DateObj t] @ [DateObj t]"
    have "st' = overwrite (length st) (XAxisObj (Some (Suc (length st), Suc (Suc (length st)))))
               (overwrite (Suc (length st)) (DateObj (shiftDate env (- 6) t)) st3)"
      using assms pv t unfolding xAxis_store_def ps alloc_def st1_def st3_def Let_def
      by auto
    moreover have "extends st st3" by (simp add: st3_def st1_def)
    ultimately show ?thesis by (simp add: extends_overwrite)
  qed
qed

lemma calculateTrend_store_frame:
  "calculateTrend_store st metricHistory latestMetrics key options = Some (t, st') \<Longrightarrow> st' = st"
  by (auto simp: calculateTrend_store_def split: option.splits if_splits)

lemma yAxis_final_store_frame:
  "extends st0 st \<Longrightarrow> length st0 \<le> ya \<Longrightarrow> extends st0 (yAxis_final_store options ya st)"
  by (auto simp: yAxis_final_store_def intro: extends_set_tickFormat split: option.splits)

lemma chart_store_frame:
  assumes "chart_store env st metricHistory latestMetrics key options ps = Some (r, t, st')"
    and "extends st0 st" and "\<forall>a \<in> set ps. length st0 \<le> a"
  shows "extends st0 st'"
proof -
  from assms(1) obtain b where b: "every_integer st ps = Some b"
    by (cases "every_integer st ps") (simp_all add: chart_store_def)
  from assms(1) b obtain st4 where r4: "reverse_stage options ps st = Some st4"
    by (cases "reverse_stage options ps st") (simp_all add: chart_store_def)
  obtain ya st5 where y: "yAxis_store options b st4 = (ya, st5)"
    by (cases "yAxis_store options b st4")
  from assms(1) b r4 y obtain xa st6 where x: "xAxis_store env ps st5 = Some (xa, st6)"
    by (cases "xAxis_store env ps st5") (auto simp: chart_store_def)
  from assms(1) b r4 y x obtain st7 where
    c: "calculateTrend_store st6 metricHistory latestMetrics key options = Some (t, st7)"
    and s': "st' = yAxis_final_store options ya st7"
    by (cases "calculateTrend_store st6 metricHistory latestMetrics key options")
       (auto simp: chart_store_def)
  from reverse_stage_frame[OF r4] have
    f: "length st4 = length st" "\<forall>b. b \<notin> set ps \<longrightarrow> read st4 b = read st b" by simp_all
  have "\<forall>b < length st0. b \<notin> set ps" using assms(3) by auto
  then have e4: "extends st0 st4"
    using assms(2) f by (intro extends_of_reads[of st0 st st4]) simp_all
  from yAxis_store_ok[OF y] have e45: "extends st4 st5" and ya: "ya = length st4"
    by blast+
  have e56: "extends st5 st6" using x by (rule xAxis_store_frame)
  have e6: "extends st0 st6" using e4 e45 e56 by (blast intro: extends_trans)
  have "st7 = st6" using c by (rule calculateTrend_store_frame)
  moreover have "length st0 \<le> ya" using ya e4 by (simp add: extends_def)
  ultimately show ?thesis unfolding s' using e6 by (simp add: yAxis_final_store_frame)
qed

lemma buildTrendChart_store_frame:
  assumes "buildTrendChart_store env st metricHistory latestMetrics key options = Some (r, st')"
  shows "extends st st'"
proof -
  from assms obtain cd ps st3 where p: "project_store st metricHistory key = Some (cd, ps, st3)"
    by (cases "project_store st metricHistory key") (auto simp: buildTrendChart_store_def)
  from project_store_frame[OF p] have
    f: "extends st st3" "\<forall>a \<in> set ps. length st \<le> a" by simp_all
  show ?thesis
  proof (cases "length ps = 0")
    case True
    then show ?thesis using assms p f(1) by (simp add: buildTrendChart_store_def)
  next
    case False
    with assms p obtain q t where
      "chart_store env st3 metricHistory latestMetrics key options ps = Some (q, t, st')"
      by (cases "chart_store env st3 metricHistory latestMetrics key options ps")
         (auto simp: buildTrendChart_store_def)
    then show ?thesis using f by (rule chart_store_frame)
  qed
qed

lemma chart_store_ok:
  assumes "extends st0 st" and "history_at st0 metricHistory = Some h"
    and "read_metrics st0 latestMetrics = Some l"
    and "points_at st ps = Some pts" and "distinct ps"
    and "\<forall>a \<in> set ps. length st0 \<le> a"
    and "read_array st cd = Some ps" and "cd \<notin> set ps"
  shows "\<exists>xa ya st'. chart_store env st metricHistory latestMetrics key options ps =
                        Some ((xa, ya), calculateTrend h l key options, st') \<and>
           chartData_at st' cd = Some (reverseData options pts)"
proof -
  define b where "b = list_all (\<lambda>p. isInteger (point_value p)) pts"
  have ev: "every_integer st ps = Some b"
    unfolding b_def using assms(4) by (rule every_integer_ok)
  from reverse_stage_ok[OF assms(4,5), of options] obtain st4 where
    r4: "reverse_stage options ps st = Some st4"
        "points_at st4 ps = Some (reverseData options pts)"
    by blast
  from reverse_stage_frame[OF r4(1)] have
    f: "length st4 = length st" "\<forall>b. b \<notin> set ps \<longrightarrow> read st4 b = read st b" by simp_all
  have "\<forall>b < length st0. b \<notin> set ps" using assms(6) by auto
  then have e4: "extends st0 st4"
    using assms(1) f by (intro extends_of_reads[of st0 st st4]) simp_all
  have cd4: "read_array st4 cd = Some ps"
    using f(2) assms(7,8) by (simp add: read_array_def)
  obtain ya st5 where y: "yAxis_store options b st4 = (ya, st5)"
    by (cases "yAxis_store options b st4")
  from yAxis_store_ok[OF y] have e45: "extends st4 st5" and ya: "ya = length st4"
    and ry: "read st5 ya =
        Some (YAxisObj (yDomain options) (Some (y_tickFormat (yAxis_initial options b))))"
    by blast+
  have p5: "points_at st5 ps = Some (reverseData options pts)"
    using e45 r4(2) by (rule points_at_extends)
  from xAxis_store_ok[OF p5] obtain xa st6 where
    x: "xAxis_store env ps st5 = Some (xa, st6)" "extends st5 st6"
    by blast
  have e6: "extends st0 st6" using e4 e45 x(2) by (blast intro: extends_trans)
  have ct: "calculateTrend_store st6 metricHistory latestMetrics key options =
              Some (calculateTrend h l key options, st6)"
    using history_at_extends[OF e6 assms(2)] read_metrics_extends[OF e6 assms(3)]
    by (rule calculateTrend_store_ok)
  have ry6: "read st6 ya =
      Some (YAxisObj (yDomain options) (Some (y_tickFormat (yAxis_initial options b))))"
    using x(2) ry by (rule read_extends)
  have lya: "length st0 \<le> ya" using ya e4 by (simp add: extends_def)
  define st7 where "st7 = yAxis_final_store options ya st6"
  from yAxis_final_store_ok[OF e6 lya ry6, of options]
  have r7: "\<forall>b. b \<noteq> ya \<longrightarrow> read st7 b = read st6 b"
    by (simp add: st7_def yAxis_initial_def)
  have res: "chart_store env st metricHistory latestMetrics key options ps =
      Some ((xa, ya), calculateTrend h l key options, st7)"
    using ev r4(1) y x(1) ct by (simp add: chart_store_def st7_def)
  have p6: "points_at st6 ps = Some (reverseData options pts)"
    using x(2) p5 by (rule points_at_extends)
  have "point_at st6 ya = None" "read_date st6 ya = None"
    using ry6 by (simp_all add: point_at_def read_date_def)
  with p6 r7 have p7: "points_at st7 ps = Some (reverseData options pts)"
    by (intro points_at_same_reads[of st6 ps _ ya st7]) simp_all
  have "cd < length st" using assms(7) by (auto simp: read_array_def read_def split: if_splits)
  then have "cd \<noteq> ya" using ya f(1) by simp
  moreover have "read_array st6 cd = Some ps"
    using e45 x(2) cd4 by (blast intro: read_array_extends extends_trans)
  ultimately have cd7: "read_array st7 cd = Some ps"
    using r7 by (simp add: read_array_def)
  have "chartData_at st7 cd = Some (reverseData options pts)"
    using cd7 p7 by (simp add: chartData_at_def)
  with res show ?thesis by blast
qed

lemma buildTrendChart_store_ok:
  assumes H: "history_at st metricHistory = Some h"
    and L: "read_metrics st latestMetrics = Some l"
  shows "\<exists>r st'. buildTrendChart_store env st metricHistory latestMetrics key options = Some (r, st') \<and>
           (case r of
              None \<Rightarrow> chartData h key = []
            | Some ((cd, xa, ya), t) \<Rightarrow>
                chartData h key \<noteq> [] \<and> t = calculateTrend h l key options \<and>
                length st < cd \<and>
                chartData_at st' cd = Some (reverseData options (chartData h key)))"
proof -
  from project_store_ok[OF H, of key] obtain cd ps st3 where
    p: "project_store st metricHistory key = Some (cd, ps, st3)"
       "length st < cd" "cd \<notin> set ps" "distinct ps"
       "read_array st3 cd = Some ps" "points_at st3 ps = Some (chartData h key)"
    by blast
  from project_store_frame[OF p(1)] have
    f: "extends st st3" "\<forall>a \<in> set ps. length st \<le> a" by simp_all
  have lenp: "length (chartData h key) = length ps" using p(6) by (rule points_at_length)
  show ?thesis
  proof (cases "length ps = 0")
    case True
    then show ?thesis using p(1) lenp by (simp add: buildTrendChart_store_def)
  next
    case False
    then have ne: "chartData h key \<noteq> []" using lenp by auto
    from chart_store_ok[where key = key and options = options and env = env,
                        OF f(1) H L p(6) p(4) f(2) p(5) p(3)]
    obtain xa ya st' where
      c: "chart_store env st3 metricHistory latestMetrics key options ps =
            Some ((xa, ya), calculateTrend h l key options, st')"
         "chartData_at st' cd = Some (reverseData options (chartData h key))"
      by blast
    have "buildTrendChart_store env st metricHistory latestMetrics key options =
            Some (Some ((cd, xa, ya), calculateTrend h l key options), st')"
      using p(1) False c(1) by (simp add: buildTrendChart_store_def)
    then show ?thesis using ne p(2) c(2) by simp
  qed
qed
text \<open>
  C9: neither function changes its inputs. \<open>calculateTrend\<close> returns the store it was
  given. Whenever \<open>buildTrendChart\<close> returns, the store it leaves extends the one it was
  given: every object that was there is unchanged at its address. On inputs of the data
  model (a history array of entries with their dates and metrics objects, and a
  latest-metrics object) both calls return, and afterwards the history reads as the
  same sequence of snapshots and the latest metrics as the same mapping. The reversal
  loop writes to the chart points only, which are fresh objects: the chart data array
  holds the remapped points of the first model while the entries keep their values.
\<close>

theorem inputs_unchanged:
  "(calculateTrend_store st metricHistory latestMetrics key topts = Some (t1, st1) \<longrightarrow> st1 = st) \<and>
   (buildTrendChart_store env st metricHistory latestMetrics key options = Some (r2, st2) \<longrightarrow>
      extends st st2) \<and>
   (history_at st metricHistory = Some h \<and> read_metrics st latestMetrics = Some l \<longrightarrow>
      calculateTrend_store st metricHistory latestMetrics key topts =
        Some (calculateTrend h l key topts, st) \<and>
      (\<exists>r st'. buildTrendChart_store env st metricHistory latestMetrics key options =
                  Some (r, st') \<and>
               extends st st' \<and>
               history_at st' metricHistory = Some h \<and>
               read_metrics st' latestMetrics = Some l \<and>
               (case r of
                  None \<Rightarrow> chartData h key = []
                | Some ((cd, xa, ya), t) \<Rightarrow>
                    chartData h key \<noteq> [] \<and> t = calculateTrend h l key options \<and>
                    length st < cd \<and>
                    chartData_at st' cd = Some (reverseData options (chartData h key)))))"
proof (intro conjI impI)
  assume "calculateTrend_store st metricHistory latestMetrics key topts = Some (t1, st1)"
  then show "st1 = st" by (rule calculateTrend_store_frame)
next
  assume "buildTrendChart_store env st metricHistory latestMetrics key options = Some (r2, st2)"
  then show "extends st st2" by (rule buildTrendChart_store_frame)
next
  assume "history_at st metricHistory = Some h \<and> read_metrics st latestMetrics = Some l"
  then show "calculateTrend_store st metricHistory latestMetrics key topts =
        Some (calculateTrend h l key topts, st)"
    by (simp add: calculateTrend_store_ok)
next
  assume a: "history_at st metricHistory = Some h \<and> read_metrics st latestMetrics = Some l"
  then have H: "history_at st metricHistory = Some h"
    and L: "read_metrics st latestMetrics = Some l" by simp_all
  from buildTrendChart_store_ok[where key = key and options = options and env = env, OF H L]
  obtain r st' where
    b: "buildTrendChart_store env st metricHistory latestMetrics key options = Some (r, st')"
       "case r of
          None \<Rightarrow> chartData h key = []
        | Some ((cd, xa, ya), t) \<Rightarrow>
            chartData h key \<noteq> [] \<and> t = calculateTrend h l key options \<and>
            length st < cd \<and>
            chartData_at st' cd = Some (reverseData options (chartData h key))"
    by blast
  have e: "extends st st'" using b(1) by (rule buildTrendChart_store_frame)
  have "history_at st' metricHistory = Some h" "read_metrics st' latestMetrics = Some l"
    using e H L by (auto intro: history_at_extends read_metrics_extends)
  with b e show "\<exists>r st'. buildTrendChart_store env st metricHistory latestMetrics key options =
                  Some (r, st') \<and>
               extends st st' \<and>
               history_at st' metricHistory = Some h \<and>
               read_metrics st' latestMetrics = Some l \<and>
               (case r of
                  None \<Rightarrow> chartData h key = []
                | Some ((cd, xa, ya), t) \<Rightarrow>
                    chartData h key \<noteq> [] \<and> t = calculateTrend h l key options \<and>
                    length st < cd \<and>
                    chartData_at st' cd = Some (reverseData options (chartData h key)))"
    by blast
qed

lemma example_store_inputs:
  "history_at example_store 6 = Some example_history"
  "read_metrics example_store 7 = Some [''y'' \<mapsto> Num 4]"
  by (simp_all add: history_at_def read_array_def read_metrics_def read_date_def read_def
        snapshot_at_def example_store_def example_history_def)

lemma example_chartData:
  "chartData example_history ''y'' =
     [\<lparr>point_date = 0, point_value = 2\<rparr>, \<lparr>point_date = 86400000, point_value = 4\<rparr>]"
  by (simp add: chartData_def List.map_filter_simps get_prop_def example_history_def)

theorem inputs_unchanged_witness:
  "\<exists>cd xa ya t st'.
     buildTrendChart_store example_env example_store 6 7 ''y''
       (example_options\<lparr>yDomain := Some (1, 5), reverse := True\<rparr>) =
       Some (Some ((cd, xa, ya), t), st') \<and>
     take 8 st' = example_store \<and>
     history_at st' 6 = Some example_history \<and>
     chartData_at st' cd =
       Some [\<lparr>point_date = 0, point_value = 4\<rparr>, \<lparr>point_date = 86400000, point_value = 2\<rparr>]"
proof -
  have "\<exists>r st'. buildTrendChart_store example_env example_store 6 7 ''y''
          (example_options\<lparr>yDomain := Some (1, 5), reverse := True\<rparr>) = Some (r, st') \<and>
       extends example_store st' \<and>
       history_at st' 6 = Some example_history \<and>
       read_metrics st' 7 = Some [''y'' \<mapsto> Num 4] \<and>
       (case r of
          None \<Rightarrow> chartData example_history ''y'' = []
        | Some ((cd, xa, ya), t) \<Rightarrow>
            chartData example_history ''y'' \<noteq> [] \<and>
            t = calculateTrend example_history [''y'' \<mapsto> Num 4] ''y''
                  (example_options\<lparr>yDomain := Some (1, 5), reverse := True\<rparr>) \<and>
            length example_store < cd \<and>
            chartData_at st' cd =
              Some (reverseData (example_options\<lparr>yDomain := Some (1, 5), reverse := True\<rparr>)
                      (chartData example_history ''y'')))"
    using inputs_unchanged[where st = example_store and metricHistory = 6 and latestMetrics = 7
      and h = example_history and l = "[''y'' \<mapsto> Num 4]" and key = "''y''"
      and topts = example_options and env = example_env
      and options = "example_options\<lparr>yDomain := Some (1, 5), reverse := True\<rparr>"]
      example_store_inputs
    by simp
  then obtain r st' where
    b: "buildTrendChart_store example_env example_store 6 7 ''y''
          (example_options\<lparr>yDomain := Some (1, 5), reverse := True\<rparr>) = Some (r, st')"
       "extends example_store st'"
       "history_at st' 6 = Some example_history"
       "case r of
          None \<Rightarrow> chartData example_history ''y'' = []
        | Some ((cd, xa, ya), t) \<Rightarrow>
            chartData_at st' cd =
              Some (reverseData (example_options\<lparr>yDomain := Some (1, 5), reverse := True\<rparr>)
                      (chartData example_history ''y''))"
    by (auto split: option.splits)
  from b(4) obtain cd xa ya t where
    r: "r = Some ((cd, xa, ya), t)"
       "chartData_at st' cd =
          Some (reverseData (example_options\<lparr>yDomain := Some (1, 5), reverse := True\<rparr>)
                  (chartData example_history ''y''))"
    by (cases r) (auto simp: example_chartData)
  have len: "length example_store = 8" by (simp add: example_store_def)
  have "take (length example_store) st' = example_store"
    using b(2) by (simp add: extends_def)
  then have "take 8 st' = example_store" by (simp only: len)
  moreover have "reverseData (example_options\<lparr>yDomain := Some (1, 5), reverse := True\<rparr>)
                  (chartData example_history ''y'') =
       [\<lparr>point_date = 0, point_value = 4\<rparr>, \<lparr>point_date = 86400000, point_value = 2\<rparr>]"
    by (simp add: example_chartData reverseData_def example_options_def fsub_examples)
  ultimately show ?thesis using b(1,3) r by auto
qed
end
